theory Spec2Isabelle
  imports
    Complex_Main
    "HOL-Library.Char_ord"
    "HOL-Library.List_Lexorder"
    "HOL-Library.Product_Lexorder"
    "HOL-Library.Multiset"
begin

section \<open>Cell values, tables and configuration\<close>

text \<open>
  A cell of a data frame holds a string, an integer, a floating-point number (given by
  its value, a rational), a calendar date (year, month, day), or one of the two missing
  markers of pandas: \<open>NaN\<close> (an empty cell as read from a sheet) and \<open>NaT\<close> (a date
  that failed to parse). A string is the list of the bytes of its UTF-8 encoding.
\<close>

datatype val = VStr string | VInt int | VFloat rat | VDate nat nat nat | NaN | NaT

datatype error = KeyError | TypeError | ValueError | AttributeError

text \<open>
  A data frame is its list of column labels and its rows in order; every row holds one
  cell per label. Labels may repeat. The type of a column is the one pandas infers from
  its cells: a column whose cells are all integers is an integer column, a column of
  floating-point numbers and empty cells is a floating-point column, and any other column
  holds its cells as Python objects.
\<close>

record table =
  columns :: "string list"
  rows :: "val list list"

text \<open>
  The configuration dictionary. \<open>columns_to_compare\<close> and the two \<open>key_column\<close>
  entries are read with \<open>config[...]\<close>; \<open>date_columns\<close> and \<open>decimal_columns\<close>
  are read with \<open>config.get(..., [])\<close>, so they may be absent.
\<close>

record config =
  columns_to_compare :: "string list"
  date_columns :: "string list option"
  decimal_columns :: "string list option"
  file1_key_column :: string
  file2_key_column :: string

section \<open>The library functions that the code calls\<close>

text \<open>
  Keys are ordered the way Python orders values of one type; missing keys go last. A
  \<open>rank\<close> embeds the keys into a linear order that agrees with it on keys of one kind
  (numbers by value, strings by code point, dates by calendar).
\<close>

type_synonym rank = "nat \<times> rat \<times> string \<times> nat \<times> nat \<times> nat"

type_synonym sorter = "(val list \<Rightarrow> rank) \<Rightarrow> val list list \<Rightarrow> val list list"

text \<open>
  The parts of Python and pandas that are not in the repository and that the comparison
  depends on are parameters:
  \<^item> \<open>sort_rows\<close> is the sorting algorithm of \<open>sort_values\<close> (its default
    \<open>kind='quicksort'\<close>); it receives the function that ranks a row and the rows;
  \<^item> \<open>to_datetime\<close> is \<open>pd.to_datetime(column, errors='coerce').dt.date\<close>: given the
    cells of a column it raises, or gives for every position the calendar date of the
    cell there, \<open>None\<close> when that cell does not parse;
  \<^item> \<open>str_lower\<close> is \<open>str.lower\<close>, with the case mapping of Unicode;
  \<^item> \<open>to_float\<close> is the conversion of a 64-bit integer to a floating-point number;
  \<^item> \<open>float_str\<close> is \<open>str\<close> of a floating-point number;
  \<^item> \<open>series_str\<close> is \<open>str\<close> of a series, given its name and its labelled values.
\<close>

record env =
  sort_rows :: sorter
  to_datetime :: "val list \<Rightarrow> error + (nat \<Rightarrow> (nat \<times> nat \<times> nat) option)"
  str_lower :: "string \<Rightarrow> string"
  to_float :: "int \<Rightarrow> rat"
  float_str :: "rat \<Rightarrow> string"
  series_str :: "nat \<Rightarrow> (string \<times> val) list \<Rightarrow> string"

section \<open>Strings\<close>

text \<open>
  \<open>str.strip()\<close> removes from both ends the characters for which \<open>str.isspace\<close> holds.
  These are the code points 9 to 13, 28 to 32, U+0085, U+00A0, U+1680, U+2000 to U+200A,
  U+2028, U+2029, U+202F, U+205F and U+3000, listed here by their UTF-8 encodings.
\<close>

definition whitespace :: "string list" where
  "whitespace =
     [[CHR 0x09], [CHR 0x0A], [CHR 0x0B], [CHR 0x0C], [CHR 0x0D],
      [CHR 0x1C], [CHR 0x1D], [CHR 0x1E], [CHR 0x1F], [CHR 0x20],
      [CHR 0xC2, CHR 0x85], [CHR 0xC2, CHR 0xA0],
      [CHR 0xE1, CHR 0x9A, CHR 0x80],
      [CHR 0xE2, CHR 0x80, CHR 0x80], [CHR 0xE2, CHR 0x80, CHR 0x81],
      [CHR 0xE2, CHR 0x80, CHR 0x82], [CHR 0xE2, CHR 0x80, CHR 0x83],
      [CHR 0xE2, CHR 0x80, CHR 0x84], [CHR 0xE2, CHR 0x80, CHR 0x85],
      [CHR 0xE2, CHR 0x80, CHR 0x86], [CHR 0xE2, CHR 0x80, CHR 0x87],
      [CHR 0xE2, CHR 0x80, CHR 0x88], [CHR 0xE2, CHR 0x80, CHR 0x89],
      [CHR 0xE2, CHR 0x80, CHR 0x8A],
      [CHR 0xE2, CHR 0x80, CHR 0xA8], [CHR 0xE2, CHR 0x80, CHR 0xA9],
      [CHR 0xE2, CHR 0x80, CHR 0xAF], [CHR 0xE2, CHR 0x81, CHR 0x9F],
      [CHR 0xE3, CHR 0x80, CHR 0x80]]"

function drop_prefixes :: "string list \<Rightarrow> string \<Rightarrow> string" where
  "drop_prefixes pats s =
     (case find (\<lambda>w. w \<noteq> [] \<and> take (length w) s = w) pats of
        None \<Rightarrow> s
      | Some w \<Rightarrow> drop_prefixes pats (drop (length w) s))"
  by pat_completeness auto

termination
proof (relation "measure (\<lambda>(pats, s). length s)")
  show "wf (measure (\<lambda>(pats, s). length s))" by simp
next
  fix pats :: "string list" and s w
  assume "find (\<lambda>w. w \<noteq> [] \<and> take (length w) s = w) pats = Some w"
  then have "w \<noteq> [] \<and> take (length w) s = w" by (auto simp: find_Some_iff)
  then have "s \<noteq> []" and "w \<noteq> []" by auto
  then show "((pats, drop (length w) s), (pats, s)) \<in> measure (\<lambda>(pats, s). length s)" by simp
qed

definition strip :: "string \<Rightarrow> string" where
  "strip s = rev (drop_prefixes (map rev whitespace) (rev (drop_prefixes whitespace s)))"

text \<open>Decimal digits of a natural number, and zero padding on the left.\<close>

definition digit_char :: "nat \<Rightarrow> char" where
  "digit_char d = ''0123456789'' ! (d mod 10)"

fun digits :: "nat \<Rightarrow> string" where
  "digits n = (if n < 10 then [digit_char n] else digits (n div 10) @ [digit_char (n mod 10)])"

definition zpad :: "nat \<Rightarrow> string \<Rightarrow> string" where
  "zpad w s = replicate (w - length s) (CHR ''0'') @ s"

text \<open>
  \<open>str(x)\<close> of a cell: a string is itself, an integer its decimal form, a date its ISO
  form, and the missing markers print as \<open>nan\<close> and \<open>NaT\<close>.
\<close>

definition int_str :: "int \<Rightarrow> string" where
  "int_str i = (if i < 0 then ''-'' @ digits (nat (- i)) else digits (nat i))"

fun py_str :: "env \<Rightarrow> val \<Rightarrow> string" where
  "py_str e (VStr s) = s"
| "py_str e (VInt i) = int_str i"
| "py_str e (VFloat q) = float_str e q"
| "py_str e (VDate y m d) = zpad 4 (digits y) @ ''-'' @ zpad 2 (digits m) @ ''-'' @ zpad 2 (digits d)"
| "py_str e NaN = ''nan''"
| "py_str e NaT = ''NaT''"

section \<open>Data frame operations\<close>

text \<open>
  The store of data frame objects: \<open>objs\<close> maps a reference to the frame it denotes and
  \<open>next_ref\<close> is the first unused reference. Operations of pandas that return a new
  frame allocate; assignments to \<open>df.columns\<close> and \<open>df[col]\<close> update in place.
\<close>

record store =
  objs :: "nat \<Rightarrow> table"
  next_ref :: nat

definition allocated :: "store \<Rightarrow> nat \<Rightarrow> bool" where
  "allocated st r = (r < next_ref st)"

definition alloc :: "store \<Rightarrow> table \<Rightarrow> store \<times> nat" where
  "alloc st t = (st\<lparr>objs := (objs st)(next_ref st := t), next_ref := Suc (next_ref st)\<rparr>, next_ref st)"

text \<open>
  \<open>df.rename(columns={old: new})\<close>: a new frame whose labels equal to \<open>old\<close> are
  replaced; a label that does not occur is ignored without error.
\<close>

definition rename_columns :: "string \<Rightarrow> string \<Rightarrow> table \<Rightarrow> table" where
  "rename_columns old new t = t\<lparr>columns := map (\<lambda>c. if c = old then new else c) (columns t)\<rparr>"

definition rename :: "store \<Rightarrow> nat \<Rightarrow> string \<Rightarrow> string \<Rightarrow> store \<times> nat" where
  "rename st df old new = alloc st (rename_columns old new (objs st df))"

text \<open>\<open>df.columns = df.columns.str.lower()\<close>: the labels of the object are replaced in place.\<close>

definition lower_columns :: "env \<Rightarrow> table \<Rightarrow> table" where
  "lower_columns e t = t\<lparr>columns := map (str_lower e) (columns t)\<rparr>"

definition set_columns_lower :: "env \<Rightarrow> store \<Rightarrow> nat \<Rightarrow> store" where
  "set_columns_lower e st df = st\<lparr>objs := (objs st)(df := lower_columns e (objs st df))\<rparr>"

text \<open>
  The cell of a row under a label, and \<open>df[col]\<close> for a label that occurs once: the
  cells of that column.
\<close>

definition cell :: "string list \<Rightarrow> val list \<Rightarrow> string \<Rightarrow> val" where
  "cell cols r c = (case map_of (zip cols r) c of Some v \<Rightarrow> v | None \<Rightarrow> NaN)"

definition column_cells :: "table \<Rightarrow> string \<Rightarrow> val list" where
  "column_cells t col = map (\<lambda>r. cell (columns t) r col) (rows t)"

text \<open>
  \<open>df[col] = pd.to_datetime(df[col], errors='coerce').dt.date\<close>. With a label that
  occurs several times \<open>df[col]\<close> is a frame, and \<open>pd.to_datetime\<close> raises
  \<open>ValueError\<close> on a frame whose labels repeat. Otherwise the column is parsed as a
  whole; a cell that does not parse becomes \<open>NaT\<close>.
\<close>

definition to_date :: "(nat \<times> nat \<times> nat) option \<Rightarrow> val" where
  "to_date p = (case p of None \<Rightarrow> NaT | Some (y, m, d) \<Rightarrow> VDate y m d)"

definition assign_column :: "string \<Rightarrow> (nat \<Rightarrow> val) \<Rightarrow> table \<Rightarrow> table" where
  "assign_column col new t =
     t\<lparr>rows := map (\<lambda>(j, r). map (\<lambda>(c, v). if c = col then new j else v) (zip (columns t) r))
                  (enumerate 0 (rows t))\<rparr>"

definition normalize_column :: "env \<Rightarrow> string \<Rightarrow> table \<Rightarrow> error + table" where
  "normalize_column e col t =
     (if 1 < count_list (columns t) col then Inl ValueError
      else case to_datetime e (column_cells t col) of
             Inl err \<Rightarrow> Inl err
           | Inr parsed \<Rightarrow> Inr (assign_column col (\<lambda>j. to_date (parsed j)) t))"

text \<open>
  \<open>normalize_dates(df, date_columns)\<close> updates the object it is given, column by column,
  and returns it; when a column raises, the columns before it have been updated.
\<close>

fun normalize_dates :: "env \<Rightarrow> store \<Rightarrow> nat \<Rightarrow> string list \<Rightarrow> store \<times> (error + nat)" where
  "normalize_dates e st df [] = (st, Inr df)"
| "normalize_dates e st df (col # cs) =
     (if col \<in> set (columns (objs st df)) then
        (case normalize_column e col (objs st df) of
           Inl err \<Rightarrow> (st, Inl err)
         | Inr t \<Rightarrow> normalize_dates e (st\<lparr>objs := (objs st)(df := t)\<rparr>) df cs)
      else normalize_dates e st df cs)"

text \<open>
  The key of a row is its cell under the label \<open>keycolumn\<close>. Keys are comparable when
  the keys that are not missing are all of one kind: strings, numbers, or dates.
\<close>

definition key_of :: "string list \<Rightarrow> val list \<Rightarrow> val" where
  "key_of cols r = (case map_of (zip cols r) ''keycolumn'' of Some v \<Rightarrow> v | None \<Rightarrow> NaN)"

fun sort_rank :: "val \<Rightarrow> rank" where
  "sort_rank (VInt i) = (0, of_int i, [], 0, 0, 0)"
| "sort_rank (VFloat q) = (0, q, [], 0, 0, 0)"
| "sort_rank (VStr s) = (0, 0, s, 0, 0, 0)"
| "sort_rank (VDate y m d) = (0, 0, [], y, m, d)"
| "sort_rank NaN = (1, 0, [], 0, 0, 0)"
| "sort_rank NaT = (1, 0, [], 0, 0, 0)"

fun key_kind :: "val \<Rightarrow> nat option" where
  "key_kind (VStr s) = Some 0"
| "key_kind (VInt i) = Some 1"
| "key_kind (VFloat q) = Some 1"
| "key_kind (VDate y m d) = Some 2"
| "key_kind NaN = None"
| "key_kind NaT = None"

definition comparable_keys :: "val list \<Rightarrow> bool" where
  "comparable_keys ks = (length (remdups (filter (\<lambda>k. k \<noteq> None) (map key_kind ks))) \<le> 1)"

definition table_keys :: "table \<Rightarrow> val list" where
  "table_keys t = map (key_of (columns t)) (rows t)"

text \<open>
  \<open>df.sort_values(by='keycolumn').reset_index(drop=True)\<close>. It raises \<open>KeyError\<close> when
  no column has the label, \<open>ValueError\<close> when several have it, and \<open>TypeError\<close> when
  two keys cannot be compared.
\<close>

definition sort_values_table :: "sorter \<Rightarrow> table \<Rightarrow> error + table" where
  "sort_values_table srt t =
     (if count_list (columns t) ''keycolumn'' = 0 then Inl KeyError
      else if 1 < count_list (columns t) ''keycolumn'' then Inl ValueError
      else if \<not> comparable_keys (table_keys t) then Inl TypeError
      else Inr (t\<lparr>rows := srt (\<lambda>r. sort_rank (key_of (columns t) r)) (rows t)\<rparr>))"

definition sort_values :: "sorter \<Rightarrow> store \<Rightarrow> nat \<Rightarrow> error + store \<times> nat" where
  "sort_values srt st df =
     (case sort_values_table srt (objs st df) of
        Inl err \<Rightarrow> Inl err
      | Inr t \<Rightarrow> Inr (alloc st t))"

section \<open>The outer join\<close>

datatype merge_tag = LeftOnly | RightOnly | Both

text \<open>
  A row of the merged frame: the indicator \<open>_merge\<close>, the key, and the other cells
  under their labels, in column order.
\<close>

record mrow =
  mtag :: merge_tag
  mkey :: val
  mcells :: "(string \<times> val) list"

text \<open>
  The cells of one side of a merged row: the key column is dropped (it is shared), and
  a label that the other frame has too receives the side's suffix.
\<close>

definition side_label :: "string \<Rightarrow> string list \<Rightarrow> string \<Rightarrow> string" where
  "side_label suffix other c = (if c \<in> set other then c @ suffix else c)"

definition side_cells :: "string \<Rightarrow> string list \<Rightarrow> string list \<Rightarrow> val list \<Rightarrow> (string \<times> val) list" where
  "side_cells suffix other cols r =
     map (\<lambda>(c, v). (side_label suffix other c, v)) (filter (\<lambda>(c, v). c \<noteq> ''keycolumn'') (zip cols r))"

definition null_cells :: "string \<Rightarrow> string list \<Rightarrow> string list \<Rightarrow> (string \<times> val) list" where
  "null_cells suffix other cols =
     map (\<lambda>c. (side_label suffix other c, NaN)) (filter (\<lambda>c. c \<noteq> ''keycolumn'') cols)"

text \<open>The merged rows of one key: every pairing of its rows on the left with its rows on the right.\<close>

definition join_key :: "table \<Rightarrow> table \<Rightarrow> val \<Rightarrow> mrow list" where
  "join_key l r k =
     (let ls = filter (\<lambda>a. key_of (columns l) a = k) (rows l);
          rs = filter (\<lambda>b. key_of (columns r) b = k) (rows r)
      in if rs = [] then
           map (\<lambda>a. \<lparr>mtag = LeftOnly, mkey = k,
                     mcells = side_cells ''_file1'' (columns r) (columns l) a
                              @ null_cells ''_file2'' (columns l) (columns r)\<rparr>) ls
         else if ls = [] then
           map (\<lambda>b. \<lparr>mtag = RightOnly, mkey = k,
                     mcells = null_cells ''_file1'' (columns r) (columns l)
                              @ side_cells ''_file2'' (columns l) (columns r) b\<rparr>) rs
         else
           concat (map (\<lambda>a. map (\<lambda>b. \<lparr>mtag = Both, mkey = k,
                     mcells = side_cells ''_file1'' (columns r) (columns l) a
                              @ side_cells ''_file2'' (columns l) (columns r) b\<rparr>) rs) ls))"

definition merge_keys :: "table \<Rightarrow> table \<Rightarrow> val list" where
  "merge_keys l r = sort_key sort_rank (remdups (table_keys l @ table_keys r))"

text \<open>
  The keys of the two frames are brought to one type before they are matched: when the
  key column of a frame is a floating-point column (it holds a floating-point number, or
  it has rows and all its keys are empty), integer keys are converted.
\<close>

fun is_float :: "val \<Rightarrow> bool" where
  "is_float (VFloat q) = True"
| "is_float v = False"

fun is_int :: "val \<Rightarrow> bool" where
  "is_int (VInt i) = True"
| "is_int v = False"

fun is_str :: "val \<Rightarrow> bool" where
  "is_str (VStr s) = True"
| "is_str v = False"

definition blank :: "val list \<Rightarrow> bool" where
  "blank ks = (ks \<noteq> [] \<and> list_all (\<lambda>k. k = NaN) ks)"

definition float_keys :: "val list \<Rightarrow> val list \<Rightarrow> bool" where
  "float_keys kl kr = (list_ex is_float (kl @ kr) \<or> blank kl \<or> blank kr)"

definition upcast :: "env \<Rightarrow> val \<Rightarrow> val" where
  "upcast e v = (case v of VInt i \<Rightarrow> VFloat (to_float e i) | _ \<Rightarrow> v)"

definition key_cast :: "env \<Rightarrow> val list \<Rightarrow> val list \<Rightarrow> val \<Rightarrow> val" where
  "key_cast e kl kr k = (if float_keys kl kr then upcast e k else k)"

definition map_key :: "(val \<Rightarrow> val) \<Rightarrow> table \<Rightarrow> table" where
  "map_key f t =
     t\<lparr>rows := map (\<lambda>r. map (\<lambda>(c, v). if c = ''keycolumn'' then f v else v) (zip (columns t) r)) (rows t)\<rparr>"

text \<open>
  A side that lacks a key of the other side receives rows of empty cells. Its integer
  columns cannot hold them and become floating-point columns: every cell of such a
  column, in every row of the merged frame, is converted.
\<close>

definition int_column :: "val list list \<Rightarrow> nat \<Rightarrow> bool" where
  "int_column rs j = (rs \<noteq> [] \<and> list_all (\<lambda>r. j < length r \<and> is_int (r ! j)) rs)"

definition promoted :: "table \<Rightarrow> bool list" where
  "promoted t = map (int_column (rows t)) [0..<length (columns t)]"

definition fill_missing :: "env \<Rightarrow> table \<Rightarrow> table" where
  "fill_missing e t =
     t\<lparr>rows := map (\<lambda>r. map (\<lambda>((c, p), v). if p \<and> c \<noteq> ''keycolumn'' then upcast e v else v)
                          (zip (zip (columns t) (promoted t)) r)) (rows t)\<rparr>"

definition joined :: "env \<Rightarrow> table \<Rightarrow> table \<Rightarrow> table \<times> table" where
  "joined e l r =
     (let l1 = map_key (key_cast e (table_keys l) (table_keys r)) l;
          r1 = map_key (key_cast e (table_keys l) (table_keys r)) r;
          l2 = (if list_ex (\<lambda>k. k \<notin> set (table_keys l1)) (table_keys r1) then fill_missing e l1 else l1);
          r2 = (if list_ex (\<lambda>k. k \<notin> set (table_keys r1)) (table_keys l1) then fill_missing e r1 else r1)
      in (l2, r2))"

text \<open>
  The checks of \<open>pd.merge\<close>. The key columns clash when their keys are of different
  kinds, and when one is an empty floating-point column and the other holds strings.
  The suffixes clash when a suffixed label repeats a label of the same frame that did
  not repeat before.
\<close>

definition key_clash :: "val list \<Rightarrow> val list \<Rightarrow> bool" where
  "key_clash kl kr =
     (\<not> comparable_keys (kl @ kr) \<or> (blank kl \<and> list_ex is_str kr) \<or> (list_ex is_str kl \<and> blank kr))"

fun duplicated_from :: "string list \<Rightarrow> string list \<Rightarrow> bool list" where
  "duplicated_from seen [] = []"
| "duplicated_from seen (x # xs) = (x \<in> set seen) # duplicated_from (x # seen) xs"

definition new_duplicates :: "string list \<Rightarrow> string list \<Rightarrow> bool" where
  "new_duplicates orig new =
     list_ex (\<lambda>(d, d'). d \<and> \<not> d') (zip (duplicated_from [] new) (duplicated_from [] orig))"

definition suffix_clash :: "table \<Rightarrow> table \<Rightarrow> bool" where
  "suffix_clash l r =
     (let others = filter (\<lambda>c. c \<noteq> ''keycolumn'') (columns r)
      in new_duplicates (columns l) (map (side_label ''_file1'' others) (columns l))
       \<or> new_duplicates others (map (side_label ''_file2'' (columns l)) others))"

text \<open>
  \<open>pd.merge(df1, df2, on='keycolumn', suffixes=('_file1', '_file2'), how='outer',
  indicator=True)\<close> of two frames that each have the key column: the keys of both
  frames in ascending order, each with its merged rows. It raises \<open>ValueError\<close> when a
  frame has a column named as the indicator or as one of its two auxiliary columns, when
  the key columns clash, and (as \<open>MergeError\<close>, a \<open>ValueError\<close>) when the suffixes
  clash.
\<close>

definition merge :: "env \<Rightarrow> table \<Rightarrow> table \<Rightarrow> error + mrow list" where
  "merge e l r =
     (if list_ex (\<lambda>c. c \<in> set (columns l) \<union> set (columns r))
           [''_left_indicator'', ''_right_indicator'', ''_merge''] then Inl ValueError
      else if key_clash (table_keys l) (table_keys r) then Inl ValueError
      else if suffix_clash l r then Inl ValueError
      else Inr (concat (map (join_key (fst (joined e l r)) (snd (joined e l r)))
                         (merge_keys (fst (joined e l r)) (snd (joined e l r))))))"

section \<open>The comparison\<close>

text \<open>
  A row of the merged frame as \<open>iterrows\<close> gives it: a series whose index holds the
  labels of the frame. \<open>label in row\<close> tests the index; \<open>row[label]\<close> is the value
  under the label, and a series of the values (named as the row) when the label repeats.
\<close>

fun tag_name :: "merge_tag \<Rightarrow> string" where
  "tag_name LeftOnly = ''left_only''"
| "tag_name RightOnly = ''right_only''"
| "tag_name Both = ''both''"

datatype item = Scalar val | Series nat "(string \<times> val) list"

definition row_items :: "mrow \<Rightarrow> (string \<times> val) list" where
  "row_items row = (''keycolumn'', mkey row) # mcells row @ [(''_merge'', VStr (tag_name (mtag row)))]"

definition in_row :: "string \<Rightarrow> mrow \<Rightarrow> bool" where
  "in_row c row = (c \<in> fst ` set (row_items row))"

definition row_get :: "nat \<Rightarrow> mrow \<Rightarrow> string \<Rightarrow> item" where
  "row_get i row c =
     (case filter (\<lambda>(l, v). l = c) (row_items row) of
        [(l, v)] \<Rightarrow> Scalar v
      | vs \<Rightarrow> Series i vs)"

fun item_str :: "env \<Rightarrow> item \<Rightarrow> string" where
  "item_str e (Scalar v) = py_str e v"
| "item_str e (Series i vs) = series_str e i vs"

text \<open>
  The body of the inner loop: the entry of one compared column in the merged row of
  index \<open>i\<close>.
\<close>

definition compare_column :: "env \<Rightarrow> nat \<Rightarrow> mrow \<Rightarrow> string \<Rightarrow> string" where
  "compare_column e i row column =
     (let col_file1 = column @ ''_file1'';
          col_file2 = column @ ''_file2''
      in if in_row col_file1 row \<and> in_row col_file2 row then
           (let val1 = strip (item_str e (row_get i row col_file1));
                val2 = strip (item_str e (row_get i row col_file2))
            in if val1 = val2 then ''Matched'' else val1 @ '' | '' @ val2)
         else ''Not Available'')"

text \<open>The outer loop over the rows from index \<open>i\<close> on: one record per merged row tagged \<open>both\<close>.\<close>

fun comparison_results :: "env \<Rightarrow> string list \<Rightarrow> nat \<Rightarrow> mrow list \<Rightarrow> val list list" where
  "comparison_results e ctc i [] = []"
| "comparison_results e ctc i (row # merged) =
     (if mtag row = Both
      then (mkey row # map (\<lambda>column. VStr (compare_column e i row column)) ctc)
             # comparison_results e ctc (Suc i) merged
      else comparison_results e ctc (Suc i) merged)"

text \<open>The four frames that \<open>compare_files\<close> returns.\<close>

record report =
  summary :: table
  comparison_df :: table
  missing_in_file1 :: table
  missing_in_file2 :: table

definition keys_tagged :: "merge_tag \<Rightarrow> mrow list \<Rightarrow> table" where
  "keys_tagged tg merged =
     \<lparr>columns = [''keycolumn''], rows = map (\<lambda>row. [mkey row]) (filter (\<lambda>row. mtag row = tg) merged)\<rparr>"

definition build_report :: "env \<Rightarrow> string list \<Rightarrow> mrow list \<Rightarrow> report" where
  "build_report e ctc merged_df =
     (let matched_records = length (filter (\<lambda>row. mtag row = Both) merged_df);
          not_matched_records = length (filter (\<lambda>row. mtag row \<noteq> Both) merged_df)
      in \<lparr>summary = \<lparr>columns = [''Description'', ''Count''],
                      rows = [[VStr ''Matched Records'', VInt (int matched_records)],
                              [VStr ''Not Matched Records'', VInt (int not_matched_records)]]\<rparr>,
          comparison_df = \<lparr>columns = ''KeyColumn'' # ctc, rows = comparison_results e ctc 0 merged_df\<rparr>,
          missing_in_file1 = keys_tagged RightOnly merged_df,
          missing_in_file2 = keys_tagged LeftOnly merged_df\<rparr>)"

text \<open>
  \<open>compare_files(df1, df2, config)\<close>. The arguments \<open>df1\<close> and \<open>df2\<close> are
  references into the store; the result is the store after the call together with the
  report, or with the exception that ended the call.
\<close>

definition compare_files :: "env \<Rightarrow> store \<Rightarrow> nat \<Rightarrow> nat \<Rightarrow> config \<Rightarrow> store \<times> (error + report)" where
  "compare_files e st0 df1_arg df2_arg cfg =
     (let ctc = columns_to_compare cfg;
          dcs = (case date_columns cfg of None \<Rightarrow> [] | Some d \<Rightarrow> d);
          dec = (case decimal_columns cfg of None \<Rightarrow> [] | Some d \<Rightarrow> d);
          (st1, df1) = rename st0 df1_arg (file1_key_column cfg) ''KeyColumn'';
          (st2, df2) = rename st1 df2_arg (file2_key_column cfg) ''KeyColumn'';
          st3 = set_columns_lower e st2 df1;
          st4 = set_columns_lower e st3 df2;
          ctc = map (str_lower e) ctc;
          dcs = map (str_lower e) dcs
      in case normalize_dates e st4 df1 dcs of
           (st5, Inl err) \<Rightarrow> (st5, Inl err)
         | (st5, Inr df1) \<Rightarrow>
             (case normalize_dates e st5 df2 dcs of
                (st6, Inl err) \<Rightarrow> (st6, Inl err)
              | (st6, Inr df2) \<Rightarrow>
                  (case sort_values (sort_rows e) st6 df1 of
                     Inl err \<Rightarrow> (st6, Inl err)
                   | Inr (st7, df1) \<Rightarrow>
                       (case sort_values (sort_rows e) st7 df2 of
                          Inl err \<Rightarrow> (st7, Inl err)
                        | Inr (st8, df2) \<Rightarrow>
                            (case merge e (objs st8 df1) (objs st8 df2) of
                               Inl err \<Rightarrow> (st8, Inl err)
                             | Inr merged_df \<Rightarrow> (st8, Inr (build_report e ctc merged_df)))))))"

section \<open>The report as a function of the two frames\<close>

text \<open>
  \<open>normalize_dates\<close> on the frame itself: the frame after the loop, and the exception
  that ended the loop, if any.
\<close>

fun normalize_dates_table :: "env \<Rightarrow> table \<Rightarrow> string list \<Rightarrow> table \<times> error option" where
  "normalize_dates_table e t [] = (t, None)"
| "normalize_dates_table e t (col # cs) =
     (if col \<in> set (columns t) then
        (case normalize_column e col t of
           Inl err \<Rightarrow> (t, Some err)
         | Inr t' \<Rightarrow> normalize_dates_table e t' cs)
      else normalize_dates_table e t cs)"

text \<open>
  What \<open>compare_files\<close> does to one frame before sorting: the key column is renamed,
  the labels are lower-cased, the date columns are normalized.
\<close>

definition prepare :: "env \<Rightarrow> string \<Rightarrow> string list \<Rightarrow> table \<Rightarrow> error + table" where
  "prepare e k dcs t =
     (case normalize_dates_table e (lower_columns e (rename_columns k ''KeyColumn'' t))
             (map (str_lower e) dcs) of
        (t', None) \<Rightarrow> Inr t'
      | (t', Some err) \<Rightarrow> Inl err)"

definition config_dates :: "config \<Rightarrow> string list" where
  "config_dates cfg = (case date_columns cfg of None \<Rightarrow> [] | Some d \<Rightarrow> d)"

definition frame1 :: "env \<Rightarrow> config \<Rightarrow> table \<Rightarrow> error + table" where
  "frame1 e cfg t = prepare e (file1_key_column cfg) (config_dates cfg) t"

definition frame2 :: "env \<Rightarrow> config \<Rightarrow> table \<Rightarrow> error + table" where
  "frame2 e cfg t = prepare e (file2_key_column cfg) (config_dates cfg) t"

definition compare_tables :: "env \<Rightarrow> table \<Rightarrow> table \<Rightarrow> config \<Rightarrow> error + report" where
  "compare_tables e t1 t2 cfg =
     (case frame1 e cfg t1 of
        Inl err \<Rightarrow> Inl err
      | Inr f1 \<Rightarrow>
         (case frame2 e cfg t2 of
            Inl err \<Rightarrow> Inl err
          | Inr f2 \<Rightarrow>
             (case sort_values_table (sort_rows e) f1 of
                Inl err \<Rightarrow> Inl err
              | Inr s1 \<Rightarrow>
                 (case sort_values_table (sort_rows e) f2 of
                    Inl err \<Rightarrow> Inl err
                  | Inr s2 \<Rightarrow>
                     (case merge e s1 s2 of
                        Inl err \<Rightarrow> Inl err
                      | Inr merged_df \<Rightarrow>
                          Inr (build_report e (map (str_lower e) (columns_to_compare cfg)) merged_df))))))"

text \<open>The merged frame of a run that reaches the join (no rows otherwise).\<close>

definition merged_frame :: "env \<Rightarrow> table \<Rightarrow> table \<Rightarrow> config \<Rightarrow> mrow list" where
  "merged_frame e t1 t2 cfg =
     (case frame1 e cfg t1 of
        Inl err \<Rightarrow> []
      | Inr f1 \<Rightarrow>
         (case frame2 e cfg t2 of
            Inl err \<Rightarrow> []
          | Inr f2 \<Rightarrow>
             (case sort_values_table (sort_rows e) f1 of
                Inl err \<Rightarrow> []
              | Inr s1 \<Rightarrow>
                 (case sort_values_table (sort_rows e) f2 of
                    Inl err \<Rightarrow> []
                  | Inr s2 \<Rightarrow> (case merge e s1 s2 of Inl err \<Rightarrow> [] | Inr merged_df \<Rightarrow> merged_df)))))"

text \<open>
  The keys of the two frames as they are joined (none when a frame could not be
  prepared), and the number of rows that an outer join gives to the keys found on both
  sides: each such key contributes one row for every pairing of a row of the first frame
  with a row of the second.
\<close>

definition keys1 :: "env \<Rightarrow> config \<Rightarrow> table \<Rightarrow> table \<Rightarrow> val list" where
  "keys1 e cfg t1 t2 =
     (case frame1 e cfg t1 of
        Inl err \<Rightarrow> []
      | Inr f1 \<Rightarrow>
         (case frame2 e cfg t2 of
            Inl err \<Rightarrow> []
          | Inr f2 \<Rightarrow> map (key_cast e (table_keys f1) (table_keys f2)) (table_keys f1)))"

definition keys2 :: "env \<Rightarrow> config \<Rightarrow> table \<Rightarrow> table \<Rightarrow> val list" where
  "keys2 e cfg t1 t2 =
     (case frame1 e cfg t1 of
        Inl err \<Rightarrow> []
      | Inr f1 \<Rightarrow>
         (case frame2 e cfg t2 of
            Inl err \<Rightarrow> []
          | Inr f2 \<Rightarrow> map (key_cast e (table_keys f1) (table_keys f2)) (table_keys f2)))"

definition pairings :: "val list \<Rightarrow> val list \<Rightarrow> nat" where
  "pairings ka kb = sum_list (map (\<lambda>k. count_list ka k * count_list kb k) (remdups (ka @ kb)))"


text \<open>
  The merged row that pairs a row of the first frame with a row of the second; the
  labels of a frame; a label that exactly one of two frames has.
\<close>

definition both_row :: "table \<Rightarrow> table \<Rightarrow> val list \<Rightarrow> val list \<Rightarrow> mrow" where
  "both_row l r a b =
     \<lparr>mtag = Both, mkey = key_of (columns l) a,
      mcells = side_cells ''_file1'' (columns r) (columns l) a
               @ side_cells ''_file2'' (columns l) (columns r) b\<rparr>"

definition labels :: "error + table \<Rightarrow> string set" where
  "labels f = (case f of Inl err \<Rightarrow> {} | Inr t \<Rightarrow> set (columns t))"

definition one_sided :: "string set \<Rightarrow> string set \<Rightarrow> string \<Rightarrow> bool" where
  "one_sided A B x = ((x \<in> A) \<noteq> (x \<in> B))"

text \<open>
  What \<open>sort_values\<close> promises of its sorting algorithm whatever the \<open>kind\<close>: the
  rows come back rearranged, in ascending order of their rank.
\<close>

definition sorts_by_key :: "sorter \<Rightarrow> bool" where
  "sorts_by_key srt = (\<forall>f xs. mset (srt f xs) = mset xs \<and> sorted (map f (srt f xs)))"

text \<open>A store holding two frames, as \<open>main\<close> builds it before it calls \<open>compare_files\<close>.\<close>

definition two_frames :: "table \<Rightarrow> table \<Rightarrow> store" where
  "two_frames t1 t2 = \<lparr>objs = (\<lambda>_. \<lparr>columns = [], rows = []\<rparr>)(0 := t1, Suc 0 := t2), next_ref = 2\<rparr>"

section \<open>Example inputs\<close>

text \<open>
  An instance of the library functions for the examples below, which hold ASCII text,
  whole numbers of few digits and no repeated label: \<open>str.lower\<close> on ASCII letters,
  \<open>str\<close> of a whole floating-point number below \<open>10\<^sup>1\<^sup>6\<close>, a date parser that knows two
  spellings of the first of January 2024 and keeps a date as it is, and insertion sort.
\<close>

definition ascii_lower_char :: "char \<Rightarrow> char" where
  "ascii_lower_char c =
     (case map_of (zip ''ABCDEFGHIJKLMNOPQRSTUVWXYZ'' ''abcdefghijklmnopqrstuvwxyz'') c of
        Some l \<Rightarrow> l
      | None \<Rightarrow> c)"

definition ascii_lower :: "string \<Rightarrow> string" where
  "ascii_lower s = map ascii_lower_char s"

definition ex_float_str :: "rat \<Rightarrow> string" where
  "ex_float_str q = (case quotient_of q of (n, d) \<Rightarrow> if d = 1 then int_str n @ ''.0'' else [])"

definition ex_parse :: "val \<Rightarrow> (nat \<times> nat \<times> nat) option" where
  "ex_parse v =
     (case v of
        VStr s \<Rightarrow> if s = ''2024-01-01'' \<or> s = ''01/01/2024'' then Some (2024, 1, 1) else None
      | VDate y m d \<Rightarrow> Some (y, m, d)
      | _ \<Rightarrow> None)"

definition ex_to_datetime :: "val list \<Rightarrow> error + (nat \<Rightarrow> (nat \<times> nat \<times> nat) option)" where
  "ex_to_datetime col = Inr (\<lambda>j. if j < length col then ex_parse (col ! j) else None)"

definition ex_env :: env where
  "ex_env = \<lparr>sort_rows = sort_key, to_datetime = ex_to_datetime, str_lower = ascii_lower,
             to_float = of_int, float_str = ex_float_str, series_str = (\<lambda>i vs. [])\<rparr>"

definition ex_sheet1 :: table where
  "ex_sheet1 = \<lparr>columns = [''Id'', ''Amt'', ''Date'', ''Region''],
                 rows = [[VInt 2, VStr '' Yes '', VStr ''2024-01-01'', VStr ''north''],
                         [VInt 1, VStr ''10'', VStr ''soon'', VStr ''south''],
                         [VInt 4, VStr ''7'', NaN, VStr ''east'']]\<rparr>"

definition ex_sheet2 :: table where
  "ex_sheet2 = \<lparr>columns = [''ID'', ''amt'', ''date''],
                 rows = [[VInt 1, VStr ''11'', VStr ''never''],
                         [VInt 3, VStr ''5'', NaN],
                         [VInt 2, VStr ''Yes'', VStr ''01/01/2024'']]\<rparr>"

definition ex_config :: config where
  "ex_config = \<lparr>columns_to_compare = [''Amt'', ''date'', ''region''],
                 date_columns = Some [''DATE''],
                 decimal_columns = None,
                 file1_key_column = ''Id'',
                 file2_key_column = ''ID''\<rparr>"

definition ex_sheet3 :: table where
  "ex_sheet3 = \<lparr>columns = [''ID'', ''amt''],
                 rows = [[VInt 7, VStr ''1''], [VInt 3, VStr ''5''], [VInt 7, VStr ''2'']]\<rparr>"

definition ex_report :: report where
  "ex_report = \<lparr>summary = \<lparr>columns = [''Description'', ''Count''],
       rows = [[VStr ''Matched Records'', VInt 2], [VStr ''Not Matched Records'', VInt 2]]\<rparr>,
     comparison_df = \<lparr>columns = [''KeyColumn'', ''amt'', ''date'', ''region''],
       rows = [[VInt 1, VStr ''10 | 11'', VStr ''Matched'', VStr ''Not Available''],
               [VInt 2, VStr ''Matched'', VStr ''Matched'', VStr ''Not Available'']]\<rparr>,
     missing_in_file1 = \<lparr>columns = [''keycolumn''], rows = [[VInt 3]]\<rparr>,
     missing_in_file2 = \<lparr>columns = [''keycolumn''], rows = [[VInt 4]]\<rparr>\<rparr>"

definition ex_report3 :: report where
  "ex_report3 = \<lparr>summary = \<lparr>columns = [''Description'', ''Count''],
       rows = [[VStr ''Matched Records'', VInt 0], [VStr ''Not Matched Records'', VInt 6]]\<rparr>,
     comparison_df = \<lparr>columns = [''KeyColumn'', ''amt'', ''date'', ''region''], rows = []\<rparr>,
     missing_in_file1 = \<lparr>columns = [''keycolumn''], rows = [[VInt 3], [VInt 7], [VInt 7]]\<rparr>,
     missing_in_file2 = \<lparr>columns = [''keycolumn''], rows = [[VInt 1], [VInt 2], [VInt 4]]\<rparr>\<rparr>"




definition ex_sheet6 :: table where
  "ex_sheet6 = \<lparr>columns = [''Id'', ''region_file1''], rows = [[VInt 1, VStr ''north'']]\<rparr>"

definition ex_sheet7 :: table where
  "ex_sheet7 = \<lparr>columns = [''ID'', ''region_file2''], rows = [[VInt 1, VStr ''south'']]\<rparr>"

definition ex_config3 :: config where
  "ex_config3 = \<lparr>columns_to_compare = [''region''], date_columns = None, decimal_columns = None,
                  file1_key_column = ''Id'', file2_key_column = ''ID''\<rparr>"





definition ex_sheet10 :: table where
  "ex_sheet10 = \<lparr>columns = [''Id'', ''region'', ''region_file1''],
                  rows = [[VInt 1, VStr ''north'', VStr ''n'']]\<rparr>"

definition ex_sheet11 :: table where
  "ex_sheet11 = \<lparr>columns = [''ID'', ''amt''], rows = [[VInt 1, VStr ''5'']]\<rparr>"

definition ex_report5 :: report where
  "ex_report5 = \<lparr>summary = \<lparr>columns = [''Description'', ''Count''],
                rows = [[VStr ''Matched Records'', VInt 1], [VStr ''Not Matched Records'', VInt 0]]\<rparr>,
             comparison_df = \<lparr>columns = [''KeyColumn'', ''region''], rows = [[VInt 1, VStr ''Not Available'']]\<rparr>,
             missing_in_file1 = \<lparr>columns = [''keycolumn''], rows = []\<rparr>,
             missing_in_file2 = \<lparr>columns = [''keycolumn''], rows = []\<rparr>\<rparr>"

section \<open>Basic facts\<close>

lemma sorts_by_key_sort_key: "sorts_by_key sort_key"
  by (simp add: sorts_by_key_def)

lemma normalize_dates_store:
  "normalize_dates e st df dcs =
     (st\<lparr>objs := (objs st)(df := fst (normalize_dates_table e (objs st df) dcs))\<rparr>,
      case snd (normalize_dates_table e (objs st df) dcs) of None \<Rightarrow> Inr df | Some err \<Rightarrow> Inl err)"
proof (induction dcs arbitrary: st)
  case Nil
  then show ?case by simp
next
  case (Cons col cs)
  show ?case
  proof (cases "col \<in> set (columns (objs st df))")
    case False
    then show ?thesis by (simp add: Cons.IH)
  next
    case True
    show ?thesis
    proof (cases "normalize_column e col (objs st df)")
      case (Inl err)
      then show ?thesis using True by simp
    next
      case (Inr t)
      have "(\<lambda>a. if a = df then x else if a = df then t else objs st a) =
            (\<lambda>a. if a = df then x else objs st a)" for x
        by auto
      then show ?thesis using True Inr by (simp add: Cons.IH)
    qed
  qed
qed

lemma sort_merge_result:
  assumes "df1 < next_ref st6" and "df2 < next_ref st6"
  shows "snd (case sort_values srt st6 df1 of
                     Inl err \<Rightarrow> (st6, Inl err)
                   | Inr (st7, df1') \<Rightarrow>
                       (case sort_values srt st7 df2 of
                          Inl err \<Rightarrow> (st7, Inl err)
                        | Inr (st8, df2') \<Rightarrow>
                            (case merge e (objs st8 df1') (objs st8 df2') of
                               Inl err \<Rightarrow> (st8, Inl err)
                             | Inr merged_df \<Rightarrow> (st8, Inr (build_report e ctc merged_df)))))
       = (case sort_values_table srt (objs st6 df1) of
                Inl err \<Rightarrow> Inl err
              | Inr s1 \<Rightarrow>
                 (case sort_values_table srt (objs st6 df2) of
                    Inl err \<Rightarrow> Inl err
                  | Inr s2 \<Rightarrow>
                     (case merge e s1 s2 of
                        Inl err \<Rightarrow> Inl err
                      | Inr merged_df \<Rightarrow> Inr (build_report e ctc merged_df))))"
proof (cases "sort_values_table srt (objs st6 df1)")
  case (Inl err)
  then show ?thesis by (simp add: sort_values_def)
next
  case s1: (Inr s1)
  show ?thesis
  proof (cases "sort_values_table srt (objs st6 df2)")
    case (Inl err)
    then show ?thesis using s1 assms by (simp add: sort_values_def alloc_def)
  next
    case s2: (Inr s2)
    show ?thesis
    proof (cases "merge e s1 s2")
      case (Inl err)
      then show ?thesis using s1 s2 assms by (simp add: sort_values_def alloc_def)
    next
      case (Inr m)
      then show ?thesis using s1 s2 assms by (simp add: sort_values_def alloc_def)
    qed
  qed
qed


lemma sort_merge_objs:
  assumes "r < next_ref st6"
  shows "objs (fst (case sort_values srt st6 df1 of
                     Inl err \<Rightarrow> (st6, Inl err)
                   | Inr (st7, df1') \<Rightarrow>
                       (case sort_values srt st7 df2 of
                          Inl err \<Rightarrow> (st7, Inl err)
                        | Inr (st8, df2') \<Rightarrow>
                            (case merge e (objs st8 df1') (objs st8 df2') of
                               Inl err \<Rightarrow> (st8, Inl err)
                             | Inr merged_df \<Rightarrow> (st8, Inr (build_report e ctc merged_df)))))) r
       = objs st6 r"
proof (cases "sort_values_table srt (objs st6 df1)")
  case (Inl err)
  then show ?thesis by (simp add: sort_values_def)
next
  case s1: (Inr s1)
  let ?st7 = "fst (alloc st6 s1)"
  show ?thesis
  proof (cases "sort_values_table srt (objs ?st7 df2)")
    case (Inl err)
    then show ?thesis using s1 assms by (simp add: sort_values_def alloc_def)
  next
    case s2: (Inr s2)
    let ?st8 = "fst (alloc ?st7 s2)"
    show ?thesis
    proof (cases "merge e (objs ?st8 (next_ref st6)) (objs ?st8 (Suc (next_ref st6)))")
      case (Inl err)
      then show ?thesis using s1 s2 assms by (simp add: sort_values_def alloc_def)
    next
      case (Inr m)
      then show ?thesis using s1 s2 assms by (simp add: sort_values_def alloc_def)
    qed
  qed
qed

lemma normalize_dates_fst:
  "objs (fst (normalize_dates e st df dcs)) r = (if r = df then fst (normalize_dates_table e (objs st df) dcs) else objs st r)"
  "next_ref (fst (normalize_dates e st df dcs)) = next_ref st"
  by (simp_all add: normalize_dates_store)

lemma normalize_dates_snd:
  "snd (normalize_dates e st df dcs) = (case snd (normalize_dates_table e (objs st df) dcs) of None \<Rightarrow> Inr df | Some err \<Rightarrow> Inl err)"
  by (simp add: normalize_dates_store)

lemma compare_files_result:
  assumes "allocated st b"
  shows "snd (compare_files e st a b cfg) = compare_tables e (objs st a) (objs st b) cfg"
proof -
  let ?n = "next_ref st"
  let ?dcs = "map (str_lower e) (config_dates cfg)"
  let ?ra = "lower_columns e (rename_columns (file1_key_column cfg) ''KeyColumn'' (objs st a))"
  let ?rb = "lower_columns e (rename_columns (file2_key_column cfg) ''KeyColumn'' (objs st b))"
  obtain st1 df1 where r1: "rename st a (file1_key_column cfg) ''KeyColumn'' = (st1, df1)" by force
  obtain st2 df2 where r2: "rename st1 b (file2_key_column cfg) ''KeyColumn'' = (st2, df2)" by force
  define st4 where "st4 = set_columns_lower e (set_columns_lower e st2 df1) df2"
  from assms have bn: "b \<noteq> ?n" by (simp add: allocated_def)
  have d: "df1 = ?n" "df2 = Suc ?n"
    using r1 r2 by (auto simp: rename_def alloc_def)
  have dn: "df2 \<noteq> df1" "df1 \<noteq> df2" "df1 < next_ref st4" "df2 < next_ref st4"
    using r1 r2 by (auto simp: rename_def alloc_def set_columns_lower_def st4_def)
  have o: "objs st4 df1 = ?ra" "objs st4 df2 = ?rb"
    using r1 r2 bn by (auto simp: rename_def alloc_def set_columns_lower_def st4_def)
  obtain st5 res1 where n1: "normalize_dates e st4 df1 ?dcs = (st5, res1)" by force
  obtain st6 res2 where n2: "normalize_dates e st5 df2 ?dcs = (st6, res2)" by force
  have f5: "st5 = fst (normalize_dates e st4 df1 ?dcs)" and s5: "res1 = snd (normalize_dates e st4 df1 ?dcs)"
    by (simp_all add: n1)
  have res1: "res1 = (case snd (normalize_dates_table e ?ra ?dcs) of None \<Rightarrow> Inr df1 | Some err \<Rightarrow> Inl err)"
    unfolding s5 normalize_dates_snd o ..
  have o5: "objs st5 df1 = fst (normalize_dates_table e ?ra ?dcs)" "objs st5 df2 = ?rb"
    "next_ref st5 = next_ref st4"
    unfolding f5 normalize_dates_fst using dn by (simp_all add: o)
  have f6: "st6 = fst (normalize_dates e st5 df2 ?dcs)" and s6: "res2 = snd (normalize_dates e st5 df2 ?dcs)"
    by (simp_all add: n2)
  have res2: "res2 = (case snd (normalize_dates_table e ?rb ?dcs) of None \<Rightarrow> Inr df2 | Some err \<Rightarrow> Inl err)"
    unfolding s6 normalize_dates_snd o5 ..
  have o6: "objs st6 df1 = fst (normalize_dates_table e ?ra ?dcs)"
    "objs st6 df2 = fst (normalize_dates_table e ?rb ?dcs)" "next_ref st6 = next_ref st4"
    unfolding f6 normalize_dates_fst using dn by (simp_all add: o5)
  have cf: "compare_files e st a b cfg =
      (case (st5, res1) of
           (st5, Inl err) \<Rightarrow> (st5, Inl err)
         | (st5, Inr df1) \<Rightarrow>
             (case normalize_dates e st5 df2 ?dcs of
                (st6, Inl err) \<Rightarrow> (st6, Inl err)
              | (st6, Inr df2) \<Rightarrow>
                  (case sort_values (sort_rows e) st6 df1 of
                     Inl err \<Rightarrow> (st6, Inl err)
                   | Inr (st7, df1) \<Rightarrow>
                       (case sort_values (sort_rows e) st7 df2 of
                          Inl err \<Rightarrow> (st7, Inl err)
                        | Inr (st8, df2) \<Rightarrow>
                            (case merge e (objs st8 df1) (objs st8 df2) of
                               Inl err \<Rightarrow> (st8, Inl err)
                             | Inr merged_df \<Rightarrow> (st8, Inr (build_report e (map (str_lower e) (columns_to_compare cfg)) merged_df)))))))"
    unfolding compare_files_def Let_def r1 r2 prod.case config_dates_def [symmetric] st4_def [symmetric] n1 ..
  obtain t1 x1 where N1: "normalize_dates_table e ?ra ?dcs = (t1, x1)" by force
  obtain t2 x2 where N2: "normalize_dates_table e ?rb ?dcs = (t2, x2)" by force
  show ?thesis
  proof (cases x1)
    case (Some err)
    then show ?thesis
      by (simp add: cf res1 N1 compare_tables_def frame1_def prepare_def)
  next
    case x1: None
    show ?thesis
    proof (cases x2)
      case (Some err)
      then show ?thesis using x1
        by (simp add: cf res1 res2 n2 N1 N2 compare_tables_def frame1_def frame2_def prepare_def)
    next
      case x2: None
      have "snd (compare_files e st a b cfg) =
         snd (case sort_values (sort_rows e) st6 df1 of
                     Inl err \<Rightarrow> (st6, Inl err)
                   | Inr (st7, df1') \<Rightarrow>
                       (case sort_values (sort_rows e) st7 df2 of
                          Inl err \<Rightarrow> (st7, Inl err)
                        | Inr (st8, df2') \<Rightarrow>
                            (case merge e (objs st8 df1') (objs st8 df2') of
                               Inl err \<Rightarrow> (st8, Inl err)
                             | Inr merged_df \<Rightarrow> (st8, Inr (build_report e (map (str_lower e) (columns_to_compare cfg)) merged_df)))))"
        using x1 x2 by (simp add: cf res1 res2 n2 N1 N2)
      also have "\<dots> = (case sort_values_table (sort_rows e) (objs st6 df1) of
                Inl err \<Rightarrow> Inl err
              | Inr s1 \<Rightarrow>
                 (case sort_values_table (sort_rows e) (objs st6 df2) of
                    Inl err \<Rightarrow> Inl err
                  | Inr s2 \<Rightarrow>
                     (case merge e s1 s2 of
                        Inl err \<Rightarrow> Inl err
                      | Inr merged_df \<Rightarrow> Inr (build_report e (map (str_lower e) (columns_to_compare cfg)) merged_df))))"
        by (rule sort_merge_result) (simp_all add: o6 dn)
      also have "\<dots> = compare_tables e (objs st a) (objs st b) cfg"
        unfolding o6 N1 N2 fst_conv using x1 x2
        by (simp add: N1 N2 compare_tables_def frame1_def frame2_def prepare_def)
      finally show ?thesis .
    qed
  qed
qed


lemma compare_files_objs:
  assumes "r < next_ref st"
  shows "objs (fst (compare_files e st a b cfg)) r = objs st r"
proof -
  let ?dcs = "map (str_lower e) (config_dates cfg)"
  let ?ctc = "map (str_lower e) (columns_to_compare cfg)"
  obtain st1 df1 where r1: "rename st a (file1_key_column cfg) ''KeyColumn'' = (st1, df1)" by force
  obtain st2 df2 where r2: "rename st1 b (file2_key_column cfg) ''KeyColumn'' = (st2, df2)" by force
  define st4 where "st4 = set_columns_lower e (set_columns_lower e st2 df1) df2"
  have dn: "r \<noteq> df1" "r \<noteq> df2" "r < next_ref st4"
    using r1 r2 assms by (auto simp: rename_def alloc_def set_columns_lower_def st4_def)
  have o: "objs st4 r = objs st r"
    using r1 r2 assms by (auto simp: rename_def alloc_def set_columns_lower_def st4_def)
  obtain st5 res1 where n1: "normalize_dates e st4 df1 ?dcs = (st5, res1)" by force
  obtain st6 res2 where n2: "normalize_dates e st5 df2 ?dcs = (st6, res2)" by force
  have f5: "st5 = fst (normalize_dates e st4 df1 ?dcs)" by (simp add: n1)
  have o5: "objs st5 r = objs st r" "next_ref st5 = next_ref st4"
    unfolding f5 normalize_dates_fst using dn by (simp_all add: o)
  have f6: "st6 = fst (normalize_dates e st5 df2 ?dcs)" by (simp add: n2)
  have o6: "objs st6 r = objs st r" "next_ref st6 = next_ref st4"
    unfolding f6 normalize_dates_fst using dn by (simp_all add: o5)
  have cf: "compare_files e st a b cfg =
      (case (st5, res1) of
           (st5, Inl err) \<Rightarrow> (st5, Inl err)
         | (st5, Inr df1) \<Rightarrow>
             (case normalize_dates e st5 df2 ?dcs of
                (st6, Inl err) \<Rightarrow> (st6, Inl err)
              | (st6, Inr df2) \<Rightarrow>
                  (case sort_values (sort_rows e) st6 df1 of
                     Inl err \<Rightarrow> (st6, Inl err)
                   | Inr (st7, df1) \<Rightarrow>
                       (case sort_values (sort_rows e) st7 df2 of
                          Inl err \<Rightarrow> (st7, Inl err)
                        | Inr (st8, df2) \<Rightarrow>
                            (case merge e (objs st8 df1) (objs st8 df2) of
                               Inl err \<Rightarrow> (st8, Inl err)
                             | Inr merged_df \<Rightarrow> (st8, Inr (build_report e ?ctc merged_df)))))))"
    unfolding compare_files_def Let_def r1 r2 prod.case config_dates_def [symmetric] st4_def [symmetric] n1 ..
  show ?thesis
  proof (cases res1)
    case (Inl err)
    then show ?thesis by (simp add: cf o5)
  next
    case r1: (Inr d1)
    show ?thesis
    proof (cases res2)
      case (Inl err)
      then show ?thesis using r1 by (simp add: cf n2 o6)
    next
      case (Inr d2)
      have "fst (compare_files e st a b cfg) =
         fst (case sort_values (sort_rows e) st6 d1 of
                     Inl err \<Rightarrow> (st6, Inl err)
                   | Inr (st7, df1') \<Rightarrow>
                       (case sort_values (sort_rows e) st7 d2 of
                          Inl err \<Rightarrow> (st7, Inl err)
                        | Inr (st8, df2') \<Rightarrow>
                            (case merge e (objs st8 df1') (objs st8 df2') of
                               Inl err \<Rightarrow> (st8, Inl err)
                             | Inr merged_df \<Rightarrow> (st8, Inr (build_report e ?ctc merged_df)))))"
        using r1 Inr by (simp add: cf n2)
      moreover have "r < next_ref st6" using dn by (simp add: o6)
      ultimately show ?thesis by (simp add: sort_merge_objs o6)
    qed
  qed
qed

lemma columns_assign_column [simp]: "columns (assign_column c new t) = columns t"
  by (simp add: assign_column_def)

lemma length_rows_assign_column [simp]: "length (rows (assign_column c new t)) = length (rows t)"
  by (simp add: assign_column_def)

lemma normalize_column_Inr:
  "normalize_column e c t = Inr t' \<Longrightarrow> columns t' = columns t \<and> length (rows t') = length (rows t)"
  by (auto simp: normalize_column_def split: if_splits sum.splits)

lemma normalize_dates_table_shape:
  "columns (fst (normalize_dates_table e t dcs)) = columns t
   \<and> length (rows (fst (normalize_dates_table e t dcs))) = length (rows t)"
proof (induction dcs arbitrary: t)
  case Nil
  then show ?case by simp
next
  case (Cons c cs)
  show ?case
  proof (cases "c \<in> set (columns t)")
    case False
    then show ?thesis using Cons.IH [of t] by simp
  next
    case True
    show ?thesis
    proof (cases "normalize_column e c t")
      case (Inl err)
      then show ?thesis using True by simp
    next
      case (Inr t')
      then show ?thesis using True Cons.IH [of t'] normalize_column_Inr [OF Inr] by simp
    qed
  qed
qed

lemma prepare_Inr:
  assumes "prepare e k dcs t = Inr f"
  shows "columns f = map (\<lambda>c. str_lower e (if c = k then ''KeyColumn'' else c)) (columns t)"
    and "length (rows f) = length (rows t)"
proof -
  from assms have f: "f = fst (normalize_dates_table e (lower_columns e (rename_columns k ''KeyColumn'' t))
             (map (str_lower e) dcs))"
    by (auto simp: prepare_def split: prod.splits option.splits)
  show "columns f = map (\<lambda>c. str_lower e (if c = k then ''KeyColumn'' else c)) (columns t)"
    unfolding f by (simp add: normalize_dates_table_shape lower_columns_def rename_columns_def comp_def)
  show "length (rows f) = length (rows t)"
    unfolding f by (simp add: normalize_dates_table_shape lower_columns_def rename_columns_def)
qed

lemma sort_values_table_Inr:
  assumes "sorts_by_key srt" and "sort_values_table srt t = Inr s"
  shows "columns s = columns t" and "mset (rows s) = mset (rows t)"
    and "mset (table_keys s) = mset (table_keys t)"
proof -
  from assms(2) have s: "s = t\<lparr>rows := srt (\<lambda>r. sort_rank (key_of (columns t) r)) (rows t)\<rparr>"
    by (auto simp: sort_values_table_def split: if_splits)
  show c: "columns s = columns t" by (simp add: s)
  show r: "mset (rows s) = mset (rows t)"
    using assms(1) by (simp add: s sorts_by_key_def)
  have "mset (table_keys s) = image_mset (key_of (columns t)) (mset (rows s))"
    by (simp add: table_keys_def c)
  then show "mset (table_keys s) = mset (table_keys t)"
    by (simp add: r table_keys_def)
qed

lemma map_of_zip_relabel:
  "map_of (zip cols (map (\<lambda>(c, v). h c v) (zip cols r))) x = map_option (h x) (map_of (zip cols r) x)"
proof (induction cols arbitrary: r)
  case Nil
  then show ?case by simp
next
  case (Cons c cs)
  then show ?case by (cases r) auto
qed

lemma map_of_zip_flagged:
  assumes "length ps = length cols" and "\<And>p v. h x p v = v"
  shows "map_of (zip cols (map (\<lambda>((c, p), v). h c p v) (zip (zip cols ps) r))) x = map_of (zip cols r) x"
  using assms(1)
proof (induction cols arbitrary: ps r)
  case Nil
  then show ?case by simp
next
  case (Cons c cs)
  then obtain p ps' where ps: "ps = p # ps'" and l: "length ps' = length cs"
    by (cases ps) auto
  show ?case
  proof (cases r)
    case Nil
    then show ?thesis by simp
  next
    case (Cons v r')
    then show ?thesis using Cons.IH [OF l, of r'] assms(2) by (auto simp: ps)
  qed
qed

lemma upcast_NaN [simp]: "upcast e NaN = NaN"
  by (simp add: upcast_def)

lemma key_cast_NaN [simp]: "key_cast e kl kr NaN = NaN"
  by (simp add: key_cast_def)

lemma columns_map_key [simp]: "columns (map_key f t) = columns t"
  by (simp add: map_key_def)

lemma columns_fill_missing [simp]: "columns (fill_missing e t) = columns t"
  by (simp add: fill_missing_def)

lemma table_keys_map_key:
  assumes "f NaN = NaN"
  shows "table_keys (map_key f t) = map f (table_keys t)"
proof -
  have "key_of (columns t) (map (\<lambda>(c, v). if c = ''keycolumn'' then f v else v) (zip (columns t) r))
        = f (key_of (columns t) r)" for r
    using map_of_zip_relabel [of "columns t" "\<lambda>c v. if c = ''keycolumn'' then f v else v" r "''keycolumn''"]
      assms
    by (simp add: key_of_def split: option.splits)
  then show ?thesis by (simp add: table_keys_def map_key_def)
qed

lemma table_keys_fill_missing [simp]: "table_keys (fill_missing e t) = table_keys t"
proof -
  have l: "length (promoted t) = length (columns t)" by (simp add: promoted_def)
  have "key_of (columns t) (map (\<lambda>((c, p), v). if p \<and> c \<noteq> ''keycolumn'' then upcast e v else v)
                          (zip (zip (columns t) (promoted t)) r))
        = key_of (columns t) r" for r
    using map_of_zip_flagged [OF l, of "\<lambda>c p v. if p \<and> c \<noteq> ''keycolumn'' then upcast e v else v" "''keycolumn''" r]
    by (simp add: key_of_def)
  then show ?thesis by (simp add: table_keys_def fill_missing_def)
qed

lemma joined_columns [simp]:
  "columns (fst (joined e l r)) = columns l" "columns (snd (joined e l r)) = columns r"
  by (simp_all add: joined_def Let_def)

lemma joined_keys:
  "table_keys (fst (joined e l r)) = map (key_cast e (table_keys l) (table_keys r)) (table_keys l)"
  "table_keys (snd (joined e l r)) = map (key_cast e (table_keys l) (table_keys r)) (table_keys r)"
  by (simp_all add: joined_def Let_def table_keys_map_key)

lemma key_cast_mset:
  assumes "mset kl = mset kl'" and "mset kr = mset kr'"
  shows "key_cast e kl kr = key_cast e kl' kr'"
proof -
  have s: "set kl = set kl'" "set kr = set kr'"
    using assms by (auto dest: mset_eq_setD)
  have n: "(kl = []) = (kl' = [])" "(kr = []) = (kr' = [])"
    using assms by (metis mset_zero_iff)+
  have "float_keys kl kr = float_keys kl' kr'"
    by (simp add: float_keys_def blank_def list_all_iff list_ex_iff s n)
  then show ?thesis by (simp add: key_cast_def fun_eq_iff)
qed

lemma const_map_filter_key:
  "map (\<lambda>a. k) (filter (\<lambda>a. f a = k) rs) = filter (\<lambda>x. x = k) (map f rs)"
  by (induction rs) auto

lemma filter_empty_keys:
  "(filter (\<lambda>a. key_of (columns t) a = k) (rows t) = []) = (k \<notin> set (table_keys t))"
  by (auto simp: table_keys_def filter_empty_conv)

lemma join_key_left_only:
  "map mkey (filter (\<lambda>row. mtag row = LeftOnly) (join_key l r k)) =
     (if k \<in> set (table_keys r) then [] else filter (\<lambda>x. x = k) (table_keys l))"
proof (cases "k \<in> set (table_keys r)")
  case True
  then have "filter (\<lambda>b. key_of (columns r) b = k) (rows r) \<noteq> []"
    by (simp add: filter_empty_keys)
  then show ?thesis using True
    by (simp add: join_key_def Let_def filter_concat comp_def filter_map)
next
  case False
  then have "filter (\<lambda>b. key_of (columns r) b = k) (rows r) = []"
    by (simp add: filter_empty_keys)
  then show ?thesis using False
    by (simp add: join_key_def Let_def comp_def filter_map const_map_filter_key table_keys_def)
qed

lemma join_key_right_only:
  "map mkey (filter (\<lambda>row. mtag row = RightOnly) (join_key l r k)) =
     (if k \<in> set (table_keys l) then [] else filter (\<lambda>x. x = k) (table_keys r))"
proof (cases "k \<in> set (table_keys r)")
  case True
  then have r: "filter (\<lambda>b. key_of (columns r) b = k) (rows r) \<noteq> []"
    by (simp add: filter_empty_keys)
  show ?thesis
  proof (cases "k \<in> set (table_keys l)")
    case True
    then have "filter (\<lambda>a. key_of (columns l) a = k) (rows l) \<noteq> []"
      by (simp add: filter_empty_keys)
    then show ?thesis using True r
      by (simp add: join_key_def Let_def filter_concat comp_def filter_map)
  next
    case False
    then have "filter (\<lambda>a. key_of (columns l) a = k) (rows l) = []"
      by (simp add: filter_empty_keys)
    then show ?thesis using False r
      by (simp add: join_key_def Let_def comp_def filter_map const_map_filter_key table_keys_def)
  qed
next
  case False
  then have r: "filter (\<lambda>b. key_of (columns r) b = k) (rows r) = []"
    by (simp add: filter_empty_keys)
  have "filter (\<lambda>x. x = k) (table_keys r) = []"
    using False by (auto simp: filter_empty_conv)
  then show ?thesis using r
    by (simp add: join_key_def Let_def comp_def filter_map)
qed

lemma join_key_both:
  "filter (\<lambda>row. mtag row = Both) (join_key l r k) =
     (if k \<in> set (table_keys l) \<and> k \<in> set (table_keys r) then join_key l r k else [])"
  by (auto simp: join_key_def Let_def filter_empty_keys filter_concat comp_def filter_map
      )

lemma mkey_join_key: "row \<in> set (join_key l r k) \<Longrightarrow> mkey row = k"
  by (auto simp: join_key_def Let_def split: if_splits)

lemma length_concat_pairs:
  "length (concat (map (\<lambda>a. map (g a) rs) ls)) = length ls * length rs"
  by (induction ls) simp_all

lemma length_filter_key:
  "length (filter (\<lambda>a. key_of (columns t) a = k) (rows t)) = count_list (table_keys t) k"
  by (simp add: table_keys_def count_list_eq_length_filter length_filter_map comp_def eq_commute)

lemma length_join_key_both:
  "length (filter (\<lambda>row. mtag row = Both) (join_key l r k)) =
     count_list (table_keys l) k * count_list (table_keys r) k"
proof (cases "k \<in> set (table_keys l) \<and> k \<in> set (table_keys r)")
  case True
  then have "filter (\<lambda>a. key_of (columns l) a = k) (rows l) \<noteq> []"
    and "filter (\<lambda>b. key_of (columns r) b = k) (rows r) \<noteq> []"
    by (simp_all add: filter_empty_keys)
  then have "length (join_key l r k) =
      length (filter (\<lambda>a. key_of (columns l) a = k) (rows l))
      * length (filter (\<lambda>b. key_of (columns r) b = k) (rows r))"
    by (simp add: join_key_def Let_def length_concat_pairs)
  then show ?thesis using True by (simp add: join_key_both length_filter_key)
next
  case False
  then have "count_list (table_keys l) k = 0 \<or> count_list (table_keys r) k = 0"
    by (auto simp: count_list_0_iff)
  then show ?thesis using False by (auto simp: join_key_both)
qed

lemma merge_keys_facts:
  "distinct (merge_keys l r)" "set (merge_keys l r) = set (table_keys l) \<union> set (table_keys r)"
  by (simp_all add: merge_keys_def)

lemma merge_Inr:
  "merge e l r = Inr m \<Longrightarrow>
   m = concat (map (join_key (fst (joined e l r)) (snd (joined e l r)))
                (merge_keys (fst (joined e l r)) (snd (joined e l r))))"
  by (auto simp: merge_def split: if_splits)

lemma mset_concat_filter_keys:
  "distinct ks \<Longrightarrow>
   mset (concat (map (\<lambda>k. if P k then [] else filter (\<lambda>x. x = k) xs) ks)) =
   mset (filter (\<lambda>x. \<not> P x \<and> x \<in> set ks) xs)"
proof (induction ks)
  case Nil
  then show ?case by simp
next
  case (Cons k ks)
  have "mset (filter (\<lambda>x. \<not> P x \<and> x \<in> set (k # ks)) xs) =
        mset (filter (\<lambda>x. \<not> P x \<and> x = k) xs) + mset (filter (\<lambda>x. \<not> P x \<and> x \<in> set ks) xs)"
    using Cons.prems by (induction xs) auto
  moreover have "filter (\<lambda>x. \<not> P x \<and> x = k) xs = (if P k then [] else filter (\<lambda>x. x = k) xs)"
    by (induction xs) auto
  ultimately show ?case using Cons by simp
qed

lemma map_mkey_filter_concat:
  "map mkey (filter Q (concat (map g ks))) = concat (map (\<lambda>k. map mkey (filter Q (g k))) ks)"
  by (induction ks) simp_all

lemma merge_right_only_keys:
  assumes "m = concat (map (join_key l r) (merge_keys l r))"
  shows "mset (map mkey (filter (\<lambda>row. mtag row = RightOnly) m)) =
         mset (filter (\<lambda>k. k \<notin> set (table_keys l)) (table_keys r))"
proof -
  have "mset (map mkey (filter (\<lambda>row. mtag row = RightOnly) m)) =
        mset (filter (\<lambda>x. \<not> x \<in> set (table_keys l) \<and> x \<in> set (merge_keys l r)) (table_keys r))"
    unfolding assms map_mkey_filter_concat join_key_right_only
    by (rule mset_concat_filter_keys) (rule merge_keys_facts)
  also have "filter (\<lambda>x. \<not> x \<in> set (table_keys l) \<and> x \<in> set (merge_keys l r)) (table_keys r) =
        filter (\<lambda>k. k \<notin> set (table_keys l)) (table_keys r)"
    by (rule filter_cong) (auto simp: merge_keys_facts)
  finally show ?thesis .
qed

lemma merge_left_only_keys:
  assumes "m = concat (map (join_key l r) (merge_keys l r))"
  shows "mset (map mkey (filter (\<lambda>row. mtag row = LeftOnly) m)) =
         mset (filter (\<lambda>k. k \<notin> set (table_keys r)) (table_keys l))"
proof -
  have "mset (map mkey (filter (\<lambda>row. mtag row = LeftOnly) m)) =
        mset (filter (\<lambda>x. \<not> x \<in> set (table_keys r) \<and> x \<in> set (merge_keys l r)) (table_keys l))"
    unfolding assms map_mkey_filter_concat join_key_left_only
    by (rule mset_concat_filter_keys) (rule merge_keys_facts)
  also have "filter (\<lambda>x. \<not> x \<in> set (table_keys r) \<and> x \<in> set (merge_keys l r)) (table_keys l) =
        filter (\<lambda>k. k \<notin> set (table_keys r)) (table_keys l)"
    by (rule filter_cong) (auto simp: merge_keys_facts)
  finally show ?thesis .
qed

lemma length_filter_concat:
  "length (filter Q (concat (map g ks))) = sum_list (map (\<lambda>k. length (filter Q (g k))) ks)"
  by (induction ks) simp_all

lemma merge_both_count:
  assumes "m = concat (map (join_key l r) (merge_keys l r))"
  shows "length (filter (\<lambda>row. mtag row = Both) m) =
         sum_list (map (\<lambda>k. count_list (table_keys l) k * count_list (table_keys r) k)
                    (remdups (table_keys l @ table_keys r)))"
proof -
  have "length (filter (\<lambda>row. mtag row = Both) m) =
        sum_list (map (\<lambda>k. count_list (table_keys l) k * count_list (table_keys r) k) (merge_keys l r))"
    unfolding assms length_filter_concat length_join_key_both ..
  also have "\<dots> = sum_mset (image_mset (\<lambda>k. count_list (table_keys l) k * count_list (table_keys r) k)
                      (mset (merge_keys l r)))"
    by (simp add: sum_mset_sum_list [symmetric] del: sum_mset_sum_list)
  also have "mset (merge_keys l r) = mset (remdups (table_keys l @ table_keys r))"
    by (simp add: merge_keys_def)
  also have "sum_mset (image_mset (\<lambda>k. count_list (table_keys l) k * count_list (table_keys r) k)
                      (mset (remdups (table_keys l @ table_keys r)))) =
        sum_list (map (\<lambda>k. count_list (table_keys l) k * count_list (table_keys r) k)
                    (remdups (table_keys l @ table_keys r)))"
    by (simp add: sum_mset_sum_list [symmetric] del: sum_mset_sum_list)
  finally show ?thesis .
qed

lemma merge_tags_partition:
  "length (filter (\<lambda>row. mtag row \<noteq> Both) m) =
     length (filter (\<lambda>row. mtag row = RightOnly) m) + length (filter (\<lambda>row. mtag row = LeftOnly) m)"
proof (induction m)
  case Nil
  then show ?case by simp
next
  case (Cons row m)
  then show ?case by (cases "mtag row") simp_all
qed

lemma compare_tables_Inr:
  assumes "compare_tables e t1 t2 cfg = Inr rep"
  obtains f1 f2 s1 s2 m where "frame1 e cfg t1 = Inr f1" and "frame2 e cfg t2 = Inr f2"
    and "sort_values_table (sort_rows e) f1 = Inr s1"
    and "sort_values_table (sort_rows e) f2 = Inr s2"
    and "merge e s1 s2 = Inr m"
    and "rep = build_report e (map (str_lower e) (columns_to_compare cfg)) m"
    and "merged_frame e t1 t2 cfg = m"
  using assms by (auto simp: compare_tables_def merged_frame_def split: sum.splits)

lemma count_list_mset_eq: "mset xs = mset ys \<Longrightarrow> count_list xs k = count_list ys k"
  by (metis count_mset)

lemma filter_notin_mset_eq:
  assumes "mset xs = mset xs'" and "mset ys = mset ys'"
  shows "mset (filter (\<lambda>k. k \<notin> set ys) xs) = mset (filter (\<lambda>k. k \<notin> set ys') xs')"
proof -
  from assms(2) have "set ys = set ys'" by (rule mset_eq_setD)
  then show ?thesis using assms(1) by (simp add: mset_filter)
qed

lemma mset_map_eq: "mset xs = mset ys \<Longrightarrow> mset (map f xs) = mset (map f ys)"
  by (metis mset_map)

lemma pairings_mset_eq:
  assumes "mset xs = mset xs'" and "mset ys = mset ys'"
  shows "pairings xs ys = pairings xs' ys'"
proof -
  have s: "set (remdups (xs @ ys)) = set (remdups (xs' @ ys'))"
    using mset_eq_setD [OF assms(1)] mset_eq_setD [OF assms(2)] by simp
  have c: "(\<lambda>k. count_list xs k * count_list ys k) = (\<lambda>k. count_list xs' k * count_list ys' k)"
    using count_list_mset_eq [OF assms(1)] count_list_mset_eq [OF assms(2)] by simp
  show ?thesis
    unfolding pairings_def c
    by (simp only: sum_list_distinct_conv_sum_set distinct_remdups s)
qed

lemma pairings_disjoint: "set ka \<inter> set kb = {} \<Longrightarrow> pairings ka kb = 0"
  by (auto simp: pairings_def count_list_0_iff)

lemma report_from_keys:
  assumes srt: "sorts_by_key (sort_rows e)"
    and run: "compare_tables e t1 t2 cfg = Inr rep"
  shows "rows (summary rep) =
           [[VStr ''Matched Records'', VInt (int (pairings (keys1 e cfg t1 t2) (keys2 e cfg t1 t2)))],
            [VStr ''Not Matched Records'',
             VInt (int (length (rows (missing_in_file1 rep)) + length (rows (missing_in_file2 rep))))]]"
    and "mset (rows (missing_in_file1 rep)) =
           mset (map (\<lambda>k. [k]) (filter (\<lambda>k. k \<notin> set (keys1 e cfg t1 t2)) (keys2 e cfg t1 t2)))"
    and "mset (rows (missing_in_file2 rep)) =
           mset (map (\<lambda>k. [k]) (filter (\<lambda>k. k \<notin> set (keys2 e cfg t1 t2)) (keys1 e cfg t1 t2)))"
    and "length (keys1 e cfg t1 t2) = length (rows t1)"
    and "length (keys2 e cfg t1 t2) = length (rows t2)"
proof -
  from run obtain f1 f2 s1 s2 m where f1: "frame1 e cfg t1 = Inr f1" and f2: "frame2 e cfg t2 = Inr f2"
    and s1: "sort_values_table (sort_rows e) f1 = Inr s1"
    and s2: "sort_values_table (sort_rows e) f2 = Inr s2"
    and m: "merge e s1 s2 = Inr m"
    and rep: "rep = build_report e (map (str_lower e) (columns_to_compare cfg)) m"
    by (rule compare_tables_Inr)
  let ?l = "fst (joined e s1 s2)" and ?r = "snd (joined e s1 s2)"
  note mm = merge_Inr [OF m]
  note e1 = sort_values_table_Inr(3) [OF srt s1] and e2 = sort_values_table_Inr(3) [OF srt s2]
  have c: "key_cast e (table_keys s1) (table_keys s2) = key_cast e (table_keys f1) (table_keys f2)"
    by (rule key_cast_mset [OF e1 e2])
  have k1: "mset (table_keys ?l) = mset (keys1 e cfg t1 t2)"
    unfolding keys1_def f1 f2 joined_keys c by (simp add: e1)
  have k2: "mset (table_keys ?r) = mset (keys2 e cfg t1 t2)"
    unfolding keys2_def f1 f2 joined_keys c by (simp add: e2)
  show "length (keys1 e cfg t1 t2) = length (rows t1)"
    using prepare_Inr(2) [OF f1 [unfolded frame1_def]] by (simp add: keys1_def f1 f2 table_keys_def)
  show "length (keys2 e cfg t1 t2) = length (rows t2)"
    using prepare_Inr(2) [OF f2 [unfolded frame2_def]] by (simp add: keys2_def f1 f2 table_keys_def)
  have r1: "rows (missing_in_file1 rep) = map (\<lambda>k. [k]) (map mkey (filter (\<lambda>row. mtag row = RightOnly) m))"
    by (simp add: rep build_report_def keys_tagged_def Let_def)
  have r2: "rows (missing_in_file2 rep) = map (\<lambda>k. [k]) (map mkey (filter (\<lambda>row. mtag row = LeftOnly) m))"
    by (simp add: rep build_report_def keys_tagged_def Let_def)
  have "mset (rows (missing_in_file1 rep)) =
        mset (map (\<lambda>k. [k]) (filter (\<lambda>k. k \<notin> set (table_keys ?l)) (table_keys ?r)))"
    unfolding r1 by (rule mset_map_eq [OF merge_right_only_keys [OF mm]])
  also have "\<dots> = mset (map (\<lambda>k. [k]) (filter (\<lambda>k. k \<notin> set (keys1 e cfg t1 t2)) (keys2 e cfg t1 t2)))"
    by (rule mset_map_eq [OF filter_notin_mset_eq [OF k2 k1]])
  finally show "mset (rows (missing_in_file1 rep)) =
           mset (map (\<lambda>k. [k]) (filter (\<lambda>k. k \<notin> set (keys1 e cfg t1 t2)) (keys2 e cfg t1 t2)))" .
  have "mset (rows (missing_in_file2 rep)) =
        mset (map (\<lambda>k. [k]) (filter (\<lambda>k. k \<notin> set (table_keys ?r)) (table_keys ?l)))"
    unfolding r2 by (rule mset_map_eq [OF merge_left_only_keys [OF mm]])
  also have "\<dots> = mset (map (\<lambda>k. [k]) (filter (\<lambda>k. k \<notin> set (keys2 e cfg t1 t2)) (keys1 e cfg t1 t2)))"
    by (rule mset_map_eq [OF filter_notin_mset_eq [OF k1 k2]])
  finally show "mset (rows (missing_in_file2 rep)) =
           mset (map (\<lambda>k. [k]) (filter (\<lambda>k. k \<notin> set (keys2 e cfg t1 t2)) (keys1 e cfg t1 t2)))" .
  have b: "length (filter (\<lambda>row. mtag row = Both) m) = pairings (keys1 e cfg t1 t2) (keys2 e cfg t1 t2)"
    unfolding merge_both_count [OF mm] pairings_def [symmetric]
    by (rule pairings_mset_eq [OF k1 k2])
  show "rows (summary rep) =
           [[VStr ''Matched Records'', VInt (int (pairings (keys1 e cfg t1 t2) (keys2 e cfg t1 t2)))],
            [VStr ''Not Matched Records'',
             VInt (int (length (rows (missing_in_file1 rep)) + length (rows (missing_in_file2 rep))))]]"
    unfolding r1 r2 by (simp add: rep build_report_def Let_def b merge_tags_partition)
qed

lemma compare_tables_summary_columns_to_compare:
  "map_sum id summary (compare_tables e t1 t2 (cfg\<lparr>columns_to_compare := c\<rparr>)) =
   map_sum id summary (compare_tables e t1 t2 cfg)"
  by (simp add: compare_tables_def frame1_def frame2_def config_dates_def build_report_def Let_def
      split: sum.splits)

lemma ex_run:
  "snd (compare_files ex_env (two_frames ex_sheet1 ex_sheet2) 0 1 ex_config) = Inr ex_report"
  by code_simp

lemma ex_run3:
  "snd (compare_files ex_env (two_frames ex_sheet1 ex_sheet3) 0 1 ex_config) = Inr ex_report3"
  by code_simp

lemma ex_keys:
  "keys1 ex_env ex_config ex_sheet1 ex_sheet2 = [VInt 2, VInt 1, VInt 4]"
  "keys2 ex_env ex_config ex_sheet1 ex_sheet2 = [VInt 1, VInt 3, VInt 2]"
  "keys1 ex_env ex_config ex_sheet1 ex_sheet3 = [VInt 2, VInt 1, VInt 4]"
  "keys2 ex_env ex_config ex_sheet1 ex_sheet3 = [VInt 7, VInt 3, VInt 7]"
  by code_simp+

lemma ex_allocated: "allocated (two_frames t1 t2) 0" "allocated (two_frames t1 t2) 1"
  by (simp_all add: allocated_def two_frames_def)

lemma ex_objs: "objs (two_frames t1 t2) 0 = t1" "objs (two_frames t1 t2) (Suc 0) = t2"
  by (simp_all add: two_frames_def)

lemma ex_objs1: "objs (two_frames t1 t2) 1 = t2"
  by (simp add: two_frames_def)

lemma ex_sorts: "sorts_by_key (sort_rows ex_env)"
  by (simp add: ex_env_def sorts_by_key_sort_key)

lemma ex_pairings:
  "pairings [VInt 2, VInt 1, VInt 4] [VInt 1, VInt 3, VInt 2] = 2"
  "pairings [VInt 2, VInt 1, VInt 4] [VInt 7, VInt 3, VInt 7] = 0"
  by (simp_all add: pairings_def)

section \<open>The keys found on one side only\<close>

text \<open>
  C1. When the comparison returns a report, the frame \<open>Missing in File 1\<close> lists, in a
  single column, exactly the keys of the second sheet that no row of the first sheet has
  (the rows the join tags \<open>right_only\<close>), each as often as it occurs there; and
  \<open>Missing in File 2\<close> lists exactly the keys of the first sheet that the second lacks
  (the rows tagged \<open>left_only\<close>).
\<close>

theorem missing_keys:
  assumes "sorts_by_key (sort_rows e)" and "allocated st df2"
    and "snd (compare_files e st df1 df2 cfg) = Inr rep"
  shows "columns (missing_in_file1 rep) = [''keycolumn'']
       \<and> mset (rows (missing_in_file1 rep)) =
           mset (map (\<lambda>k. [k]) (filter (\<lambda>k. k \<notin> set (keys1 e cfg (objs st df1) (objs st df2)))
                                     (keys2 e cfg (objs st df1) (objs st df2))))
       \<and> columns (missing_in_file2 rep) = [''keycolumn'']
       \<and> mset (rows (missing_in_file2 rep)) =
           mset (map (\<lambda>k. [k]) (filter (\<lambda>k. k \<notin> set (keys2 e cfg (objs st df1) (objs st df2)))
                                     (keys1 e cfg (objs st df1) (objs st df2))))"
proof -
  from assms(2,3) have run: "compare_tables e (objs st df1) (objs st df2) cfg = Inr rep"
    by (simp add: compare_files_result)
  then obtain m where "rep = build_report e (map (str_lower e) (columns_to_compare cfg)) m"
    by (rule compare_tables_Inr)
  then have "columns (missing_in_file1 rep) = [''keycolumn'']"
    and "columns (missing_in_file2 rep) = [''keycolumn'']"
    by (simp_all add: build_report_def keys_tagged_def Let_def)
  with report_from_keys(2,3) [OF assms(1) run] show ?thesis by simp
qed

theorem missing_keys_witness:
  "sorts_by_key (sort_rows ex_env) \<and> allocated (two_frames ex_sheet1 ex_sheet2) 1
   \<and> snd (compare_files ex_env (two_frames ex_sheet1 ex_sheet2) 0 1 ex_config) = Inr ex_report
   \<and> mset (rows (missing_in_file1 ex_report)) = mset [[VInt 3]]
   \<and> mset (rows (missing_in_file2 ex_report)) = mset [[VInt 4]]"
  using missing_keys [OF ex_sorts ex_allocated(2) ex_run]
    ex_sorts ex_allocated(2) [of ex_sheet1 ex_sheet2] ex_run
  by (simp add: ex_objs ex_keys)

section \<open>The summary\<close>

text \<open>
  C3. When the comparison returns a report, \<open>Matched Records\<close> is the number of joined
  rows whose key both sheets have, and \<open>Not Matched Records\<close> is the number of keys of
  the first sheet missing from the second plus the number of keys of the second missing
  from the first. The summary does not depend on the columns that are compared. When
  the two sheets share no key, the matched count is 0 and each of the two frames of
  missing keys has as many rows as the sheet it comes from.
\<close>

theorem summary_counts:
  assumes "sorts_by_key (sort_rows e)" and "allocated st df2"
    and "snd (compare_files e st df1 df2 cfg) = Inr rep"
  shows "rows (summary rep) =
           [[VStr ''Matched Records'',
             VInt (int (pairings (keys1 e cfg (objs st df1) (objs st df2)) (keys2 e cfg (objs st df1) (objs st df2))))],
            [VStr ''Not Matched Records'',
             VInt (int (length (filter (\<lambda>k. k \<notin> set (keys2 e cfg (objs st df1) (objs st df2)))
                                  (keys1 e cfg (objs st df1) (objs st df2)))
                      + length (filter (\<lambda>k. k \<notin> set (keys1 e cfg (objs st df1) (objs st df2)))
                                  (keys2 e cfg (objs st df1) (objs st df2)))))]]
       \<and> map_sum id summary (snd (compare_files e st df1 df2 (cfg\<lparr>columns_to_compare := c\<rparr>)))
           = Inr (summary rep)
       \<and> (set (keys1 e cfg (objs st df1) (objs st df2)) \<inter> set (keys2 e cfg (objs st df1) (objs st df2)) = {} \<longrightarrow>
            pairings (keys1 e cfg (objs st df1) (objs st df2)) (keys2 e cfg (objs st df1) (objs st df2)) = 0
          \<and> length (rows (missing_in_file2 rep)) = length (rows (objs st df1))
          \<and> length (rows (missing_in_file1 rep)) = length (rows (objs st df2)))"
proof -
  let ?ka = "keys1 e cfg (objs st df1) (objs st df2)" and ?kb = "keys2 e cfg (objs st df1) (objs st df2)"
  from assms(2,3) have run: "compare_tables e (objs st df1) (objs st df2) cfg = Inr rep"
    by (simp add: compare_files_result)
  note facts = report_from_keys [OF assms(1) run]
  have l1: "length (rows (missing_in_file1 rep)) = length (filter (\<lambda>k. k \<notin> set ?ka) ?kb)"
    using facts(2) by (metis length_map size_mset)
  have l2: "length (rows (missing_in_file2 rep)) = length (filter (\<lambda>k. k \<notin> set ?kb) ?ka)"
    using facts(3) by (metis length_map size_mset)
  have a: "rows (summary rep) =
           [[VStr ''Matched Records'', VInt (int (pairings ?ka ?kb))],
            [VStr ''Not Matched Records'',
             VInt (int (length (filter (\<lambda>k. k \<notin> set ?kb) ?ka) + length (filter (\<lambda>k. k \<notin> set ?ka) ?kb)))]]"
    using facts(1) by (simp add: l1 l2)
  have b: "map_sum id summary (snd (compare_files e st df1 df2 (cfg\<lparr>columns_to_compare := c\<rparr>)))
           = Inr (summary rep)"
    using assms(2) run
    by (simp add: compare_files_result compare_tables_summary_columns_to_compare)
  have c: "pairings ?ka ?kb = 0 \<and> length (rows (missing_in_file2 rep)) = length (rows (objs st df1))
          \<and> length (rows (missing_in_file1 rep)) = length (rows (objs st df2))"
    if d: "set ?ka \<inter> set ?kb = {}"
  proof -
    from d have "filter (\<lambda>k. k \<notin> set ?kb) ?ka = ?ka" and "filter (\<lambda>k. k \<notin> set ?ka) ?kb = ?kb"
      by (auto simp: filter_id_conv)
    then show ?thesis using pairings_disjoint [OF d] by (simp add: l1 l2 facts(4,5))
  qed
  from a b c show ?thesis by blast
qed

theorem summary_counts_witness:
  "sorts_by_key (sort_rows ex_env) \<and> allocated (two_frames ex_sheet1 ex_sheet3) 1
   \<and> snd (compare_files ex_env (two_frames ex_sheet1 ex_sheet3) 0 1 ex_config) = Inr ex_report3
   \<and> set (keys1 ex_env ex_config ex_sheet1 ex_sheet3) \<inter> set (keys2 ex_env ex_config ex_sheet1 ex_sheet3) = {}
   \<and> rows (summary ex_report3) = [[VStr ''Matched Records'', VInt 0], [VStr ''Not Matched Records'', VInt 6]]
   \<and> length (rows (missing_in_file2 ex_report3)) = length (rows ex_sheet1)
   \<and> length (rows (missing_in_file1 ex_report3)) = length (rows ex_sheet3)
   \<and> snd (compare_files ex_env (two_frames ex_sheet1 ex_sheet2) 0 1 ex_config) = Inr ex_report
   \<and> rows (summary ex_report) = [[VStr ''Matched Records'', VInt 2], [VStr ''Not Matched Records'', VInt 2]]
   \<and> rows (comparison_df ex_report) ! 0 = [VInt 1, VStr ''10 | 11'', VStr ''Matched'', VStr ''Not Available'']"
proof -
  have d: "set (keys1 ex_env ex_config ex_sheet1 ex_sheet3) \<inter> set (keys2 ex_env ex_config ex_sheet1 ex_sheet3) = {}"
    by (simp add: ex_keys)
  from summary_counts [OF ex_sorts ex_allocated(2) ex_run3, of "[]"]
  have "rows (summary ex_report3) = [[VStr ''Matched Records'', VInt 0], [VStr ''Not Matched Records'', VInt 6]]
     \<and> length (rows (missing_in_file2 ex_report3)) = length (rows ex_sheet1)
     \<and> length (rows (missing_in_file1 ex_report3)) = length (rows ex_sheet3)"
    by (simp add: ex_objs ex_keys ex_pairings)
  moreover from summary_counts [OF ex_sorts ex_allocated(2) ex_run, of "[]"]
  have "rows (summary ex_report) = [[VStr ''Matched Records'', VInt 2], [VStr ''Not Matched Records'', VInt 2]]"
    by (simp add: ex_objs ex_keys ex_pairings)
  moreover have "rows (comparison_df ex_report) ! 0 = [VInt 1, VStr ''10 | 11'', VStr ''Matched'', VStr ''Not Available'']"
    by (simp add: ex_report_def)
  ultimately show ?thesis
    using ex_sorts ex_allocated(2) [of ex_sheet1 ex_sheet3] ex_run3 ex_run d by simp
qed

section \<open>The caller's frames\<close>

text \<open>
  C9. A call of \<open>compare_files\<close> leaves the caller's two frames as they were, whether it
  returns a report or raises: renaming and sorting build new frames, and the in-place
  updates (the lower-cased labels, the normalized dates) are made to those new frames.
\<close>

theorem compare_files_keeps_inputs:
  assumes "allocated st df1" and "allocated st df2"
  shows "objs (fst (compare_files e st df1 df2 cfg)) df1 = objs st df1
       \<and> objs (fst (compare_files e st df1 df2 cfg)) df2 = objs st df2"
  using assms by (simp add: allocated_def compare_files_objs)

theorem compare_files_keeps_inputs_witness:
  "allocated (two_frames ex_sheet1 ex_sheet2) 0 \<and> allocated (two_frames ex_sheet1 ex_sheet2) 1
   \<and> objs (fst (compare_files ex_env (two_frames ex_sheet1 ex_sheet2) 0 1 ex_config)) 0 = ex_sheet1
   \<and> objs (fst (compare_files ex_env (two_frames ex_sheet1 ex_sheet2) 0 1 ex_config)) 1 = ex_sheet2"
proof -
  have a0: "allocated (two_frames ex_sheet1 ex_sheet2) 0"
    and a1: "allocated (two_frames ex_sheet1 ex_sheet2) 1"
    by (simp_all add: allocated_def two_frames_def)
  have o0: "objs (two_frames ex_sheet1 ex_sheet2) 0 = ex_sheet1"
    and o1: "objs (two_frames ex_sheet1 ex_sheet2) 1 = ex_sheet2"
    by (simp_all add: two_frames_def)
  from compare_files_keeps_inputs [OF a0 a1, of ex_env ex_config] a0 a1 o0 o1
  show ?thesis by simp
qed

section \<open>The unused configuration field\<close>

text \<open>
  C10. The entry \<open>decimal_columns\<close> of the configuration is read and never used: two
  configurations that differ only there (in its value, or in whether it is present) give
  the same result, and so the same four frames of the report.
\<close>

theorem compare_files_ignores_decimal_columns:
  "compare_files e st df1 df2 (cfg\<lparr>decimal_columns := d\<rparr>) = compare_files e st df1 df2 cfg"
  by (simp add: compare_files_def)

lemma columns_sort_values_table: "sort_values_table srt t = Inr s \<Longrightarrow> columns s = columns t"
  by (auto simp: sort_values_table_def split: if_splits)


lemma comparison_results_member:
  assumes "rec \<in> set (comparison_results e ctc n m)"
  shows "\<exists>j row. row \<in> set m \<and> mtag row = Both
           \<and> rec = mkey row # map (\<lambda>column. VStr (compare_column e j row column)) ctc"
  using assms
proof (induction m arbitrary: n)
  case Nil
  then show ?case by simp
next
  case (Cons row m)
  show ?case
  proof (cases "mtag row = Both \<and> rec = mkey row # map (\<lambda>column. VStr (compare_column e n row column)) ctc")
    case True
    then show ?thesis by auto
  next
    case False
    with Cons.prems have "rec \<in> set (comparison_results e ctc (Suc n) m)"
      by (auto split: if_splits)
    from Cons.IH [OF this] show ?thesis by auto
  qed
qed



lemma in_join_key_both:
  assumes "row \<in> set (join_key l r k)" and "mtag row = Both"
  shows "\<exists>a b. row = both_row l r a b"
proof -
  from assms have "\<exists>a b. row = \<lparr>mtag = Both, mkey = key_of (columns l) a,
                      mcells = side_cells ''_file1'' (columns r) (columns l) a
                               @ side_cells ''_file2'' (columns l) (columns r) b\<rparr>"
    by (auto simp: join_key_def Let_def split: if_splits)
  then show ?thesis by (simp add: both_row_def)
qed

lemma in_merge_both:
  assumes "merge e l r = Inr m" and "row \<in> set m" and "mtag row = Both"
  shows "\<exists>a b. row = both_row (fst (joined e l r)) (snd (joined e l r)) a b"
proof -
  from assms(2) obtain k where "row \<in> set (join_key (fst (joined e l r)) (snd (joined e l r)) k)"
    unfolding merge_Inr [OF assms(1)] by auto
  then show ?thesis using assms(3) by (rule in_join_key_both)
qed

lemma last_neq: "last xs \<noteq> last ys \<Longrightarrow> xs \<noteq> ys"
  by auto

lemma suffix_neq:
  "c @ ''_file1'' \<noteq> ''keycolumn''" "c @ ''_file2'' \<noteq> ''keycolumn''"
  "c @ ''_file1'' \<noteq> ''_merge''" "c @ ''_file2'' \<noteq> ''_merge''"
  "c @ ''_file1'' \<noteq> c' @ ''_file2''" "c @ ''_file2'' \<noteq> c' @ ''_file1''"
  by (rule last_neq, simp)+

lemma fst_side_cells:
  "fst ` set (side_cells suf other cols a) \<subseteq> side_label suf other ` (set cols - {''keycolumn''})"
  by (auto simp: side_cells_def dest: set_zip_leftD)

lemma in_row_both_row:
  assumes "in_row x (both_row l r a b)" and "x \<noteq> ''keycolumn''" and "x \<noteq> ''_merge''"
  shows "x \<in> side_label ''_file1'' (columns r) ` set (columns l)
       \<or> x \<in> side_label ''_file2'' (columns l) ` set (columns r)"
proof -
  from assms have "x \<in> fst ` set (side_cells ''_file1'' (columns r) (columns l) a)
                    \<union> fst ` set (side_cells ''_file2'' (columns l) (columns r) b)"
    by (auto simp: in_row_def row_items_def both_row_def)
  with fst_side_cells [of "''_file1''" "columns r" "columns l" a]
    fst_side_cells [of "''_file2''" "columns l" "columns r" b]
  show ?thesis by blast
qed

lemma in_row_one_sided:
  assumes absent: "c \<notin> set (columns l) \<or> c \<notin> set (columns r)"
    and x: "x = c @ ''_file1'' \<or> x = c @ ''_file2''"
    and i: "in_row x (both_row l r a b)"
  shows "one_sided (set (columns l)) (set (columns r)) x"
proof -
  from x have n: "x \<noteq> ''keycolumn''" "x \<noteq> ''_merge''" by (auto simp: suffix_neq)
  from in_row_both_row [OF i n]
  consider y where "y \<in> set (columns l)" "x = side_label ''_file1'' (columns r) y"
    | y where "y \<in> set (columns r)" "x = side_label ''_file2'' (columns l) y"
    by blast
  then show ?thesis
  proof cases
    case 1
    show ?thesis
    proof (cases "y \<in> set (columns r)")
      case True
      then have "x = y @ ''_file1''" using 1 by (simp add: side_label_def)
      with x have "y = c" by (auto simp: suffix_neq)
      with 1 True absent show ?thesis by blast
    next
      case False
      then have "x = y" using 1 by (simp add: side_label_def)
      with 1 False show ?thesis by (simp add: one_sided_def)
    qed
  next
    case 2
    show ?thesis
    proof (cases "y \<in> set (columns l)")
      case True
      then have "x = y @ ''_file2''" using 2 by (simp add: side_label_def)
      with x have "y = c" by (auto simp: suffix_neq)
      with 2 True absent show ?thesis by blast
    next
      case False
      then have "x = y" using 2 by (simp add: side_label_def)
      with 2 False show ?thesis by (simp add: one_sided_def)
    qed
  qed
qed

lemma not_available:
  assumes absent: "c \<notin> set (columns l) \<or> c \<notin> set (columns r)"
    and clear: "\<not> (one_sided (set (columns l)) (set (columns r)) (c @ ''_file1'')
               \<and> one_sided (set (columns l)) (set (columns r)) (c @ ''_file2''))"
  shows "compare_column e i (both_row l r a b) c = ''Not Available''"
proof -
  have "\<not> (in_row (c @ ''_file1'') (both_row l r a b) \<and> in_row (c @ ''_file2'') (both_row l r a b))"
    using clear in_row_one_sided [OF absent] by blast
  then show ?thesis by (auto simp: compare_column_def Let_def)
qed

lemma ex_lower: "ascii_lower ''Amt'' = ''amt''" "ascii_lower ''date'' = ''date''"
  "ascii_lower ''region'' = ''region''" "ascii_lower ''amt'' = ''amt''"
  by code_simp+

lemma ex_frames:
  "frame1 ex_env ex_config ex_sheet1 =
     Inr \<lparr>columns = [''keycolumn'', ''amt'', ''date'', ''region''],
      rows = [[VInt 2, VStr '' Yes '', VDate 2024 1 1, VStr ''north''],
              [VInt 1, VStr ''10'', NaT, VStr ''south''],
              [VInt 4, VStr ''7'', NaT, VStr ''east'']]\<rparr>"
  "frame2 ex_env ex_config ex_sheet2 =
     Inr \<lparr>columns = [''keycolumn'', ''amt'', ''date''],
      rows = [[VInt 1, VStr ''11'', NaT], [VInt 3, VStr ''5'', NaT],
              [VInt 2, VStr ''Yes'', VDate 2024 1 1]]\<rparr>"
  by code_simp+



lemma ex_run5:
  "snd (compare_files ex_env (two_frames ex_sheet10 ex_sheet11) 0 1 ex_config3) = Inr ex_report5"
  by code_simp

lemma ex_frames5:
  "frame1 ex_env ex_config3 ex_sheet10 =
     Inr \<lparr>columns = [''keycolumn'', ''region'', ''region_file1''], rows = [[VInt 1, VStr ''north'', VStr ''n'']]\<rparr>"
  "frame2 ex_env ex_config3 ex_sheet11 =
     Inr \<lparr>columns = [''keycolumn'', ''amt''], rows = [[VInt 1, VStr ''5'']]\<rparr>"
  by code_simp+



section \<open>The verdict on a compared column\<close>




section \<open>Columns that a sheet lacks\<close>

text \<open>
  C7, amended. If a compared column is absent from one of the two sheets, then every
  record of the detailed comparison holds \<open>Not Available\<close> for it, unless each of the
  two labels \<open>column_file1\<close> and \<open>column_file2\<close> is itself a label of exactly one of the
  two sheets.
\<close>

theorem absent_column_not_available:
  assumes "allocated st df2"
    and "snd (compare_files e st df1 df2 cfg) = Inr rep"
    and "i < length (columns_to_compare cfg)"
    and "str_lower e (columns_to_compare cfg ! i) \<notin> labels (frame1 e cfg (objs st df1))
       \<or> str_lower e (columns_to_compare cfg ! i) \<notin> labels (frame2 e cfg (objs st df2))"
    and "\<not> (one_sided (labels (frame1 e cfg (objs st df1))) (labels (frame2 e cfg (objs st df2)))
               (str_lower e (columns_to_compare cfg ! i) @ ''_file1'')
          \<and> one_sided (labels (frame1 e cfg (objs st df1))) (labels (frame2 e cfg (objs st df2)))
               (str_lower e (columns_to_compare cfg ! i) @ ''_file2''))"
    and "rec \<in> set (rows (comparison_df rep))"
  shows "columns (comparison_df rep) ! Suc i = str_lower e (columns_to_compare cfg ! i)
       \<and> rec ! Suc i = VStr ''Not Available''"
proof -
  let ?c = "str_lower e (columns_to_compare cfg ! i)"
  let ?ctc = "map (str_lower e) (columns_to_compare cfg)"
  from assms(1,2) have run: "compare_tables e (objs st df1) (objs st df2) cfg = Inr rep"
    by (simp add: compare_files_result)
  from run obtain f1 f2 s1 s2 m where f1: "frame1 e cfg (objs st df1) = Inr f1"
    and f2: "frame2 e cfg (objs st df2) = Inr f2"
    and s1: "sort_values_table (sort_rows e) f1 = Inr s1"
    and s2: "sort_values_table (sort_rows e) f2 = Inr s2"
    and m: "merge e s1 s2 = Inr m"
    and rep: "rep = build_report e ?ctc m"
    by (rule compare_tables_Inr)
  have h: "columns (comparison_df rep) ! Suc i = ?c"
    using assms(3) by (simp add: rep build_report_def Let_def)
  let ?l = "fst (joined e s1 s2)" and ?r = "snd (joined e s1 s2)"
  have c1: "set (columns ?l) = labels (frame1 e cfg (objs st df1))"
    by (simp add: f1 labels_def columns_sort_values_table [OF s1])
  have c2: "set (columns ?r) = labels (frame2 e cfg (objs st df2))"
    by (simp add: f2 labels_def columns_sort_values_table [OF s2])
  from assms(6) have "rec \<in> set (comparison_results e ?ctc 0 m)"
    by (simp add: rep build_report_def Let_def)
  then obtain j row where row: "row \<in> set m" "mtag row = Both"
    and r: "rec = mkey row # map (\<lambda>c. VStr (compare_column e j row c)) ?ctc"
    using comparison_results_member by blast
  from in_merge_both [OF m row] obtain a b where ab: "row = both_row ?l ?r a b" by blast
  have "compare_column e j (both_row ?l ?r a b) ?c = ''Not Available''"
    by (rule not_available) (simp_all only: c1 c2 assms(4,5) not_False_eq_True)
  then have "rec ! Suc i = VStr ''Not Available''"
    using assms(3) by (simp add: r ab)
  with h show ?thesis ..
qed

theorem absent_column_not_available_witness:
  "allocated (two_frames ex_sheet10 ex_sheet11) 1
   \<and> snd (compare_files ex_env (two_frames ex_sheet10 ex_sheet11) 0 1 ex_config3) = Inr ex_report5
   \<and> 0 < length (columns_to_compare ex_config3)
   \<and> str_lower ex_env (columns_to_compare ex_config3 ! 0) = ''region''
   \<and> labels (frame1 ex_env ex_config3 ex_sheet10) = {''keycolumn'', ''region'', ''region_file1''}
   \<and> labels (frame2 ex_env ex_config3 ex_sheet11) = {''keycolumn'', ''amt''}
   \<and> [VInt 1, VStr ''Not Available''] \<in> set (rows (comparison_df ex_report5))
   \<and> columns (comparison_df ex_report5) ! 1 = ''region''
   \<and> [VInt 1, VStr ''Not Available''] ! 1 = VStr ''Not Available''"
proof -
  let ?rec = "[VInt 1, VStr ''Not Available'']"
  let ?st = "two_frames ex_sheet10 ex_sheet11"
  have rec: "?rec \<in> set (rows (comparison_df ex_report5))" by (simp add: ex_report5_def)
  have c: "columns_to_compare ex_config3 = [''region'']" by (simp add: ex_config3_def)
  have i: "0 < length (columns_to_compare ex_config3)" by (simp add: c)
  have l: "str_lower ex_env (columns_to_compare ex_config3 ! 0) = ''region''"
    by (simp add: c ex_env_def ex_lower)
  have l1: "labels (frame1 ex_env ex_config3 (objs ?st 0)) = {''keycolumn'', ''region'', ''region_file1''}"
    and l2: "labels (frame2 ex_env ex_config3 (objs ?st 1)) = {''keycolumn'', ''amt''}"
    by (auto simp: ex_objs ex_objs1 ex_frames5 labels_def)
  have ab: "str_lower ex_env (columns_to_compare ex_config3 ! 0) \<notin> labels (frame1 ex_env ex_config3 (objs ?st 0))
       \<or> str_lower ex_env (columns_to_compare ex_config3 ! 0) \<notin> labels (frame2 ex_env ex_config3 (objs ?st 1))"
    unfolding l l1 l2 by simp
  have ns: "\<not> (one_sided (labels (frame1 ex_env ex_config3 (objs ?st 0))) (labels (frame2 ex_env ex_config3 (objs ?st 1)))
               (str_lower ex_env (columns_to_compare ex_config3 ! 0) @ ''_file1'')
          \<and> one_sided (labels (frame1 ex_env ex_config3 (objs ?st 0))) (labels (frame2 ex_env ex_config3 (objs ?st 1)))
               (str_lower ex_env (columns_to_compare ex_config3 ! 0) @ ''_file2''))"
    unfolding l l1 l2 by (simp add: one_sided_def)
  from absent_column_not_available [OF ex_allocated(2) ex_run5 i ab ns rec]
  have "columns (comparison_df ex_report5) ! Suc 0 = ''region'' \<and> ?rec ! Suc 0 = VStr ''Not Available''"
    by (simp only: l)
  then have "columns (comparison_df ex_report5) ! 1 = ''region'' \<and> ?rec ! 1 = VStr ''Not Available''"
    by simp
  with rec i l l1 l2 ex_allocated(2) [of ex_sheet10 ex_sheet11] ex_run5
  show ?thesis by (simp add: ex_objs ex_objs1)
qed

text \<open>
  The claim as first stated fails: no sheet has the column \<open>region\<close>, one has
  \<open>region_file1\<close> and the other \<open>region_file2\<close>, and the entry compares those two.
\<close>

theorem suffixed_labels_counterexample:
  "''region'' \<notin> labels (frame1 ex_env ex_config3 ex_sheet6)
   \<and> ''region'' \<notin> labels (frame2 ex_env ex_config3 ex_sheet7)
   \<and> map_sum id (\<lambda>rep. (columns (comparison_df rep), rows (comparison_df rep)))
        (snd (compare_files ex_env (two_frames ex_sheet6 ex_sheet7) 0 1 ex_config3))
      = Inr ([''KeyColumn'', ''region''], [[VInt 1, VStr ''north | south'']])"
  by code_simp

end
